theory Spec2Isabelle
  imports Main "HOL-Library.Sublist"
begin

section \<open>Package release logic of \<^verbatim>\<open>pkgbld/release.py\<close>\<close>

text \<open>
  The module has one function, \<^verbatim>\<open>release\<close>, a linear sequence of parameter checks,
  console lines, filesystem calls and external commands. It is embedded as the list of
  steps the function body performs, in source order, and an interpreter \<open>run\<close> that
  executes the steps against an environment and stops at the first exception.

  The helpers of \<^verbatim>\<open>pkgbld.utils\<close> (\<^verbatim>\<open>os_call\<close>, \<^verbatim>\<open>file_revision\<close>,
  \<^verbatim>\<open>conda_platform_name\<close>) are used by the function and are parameters of the model:
  a call of the first two is an event that the environment lets succeed or fail, the
  third is a string the environment supplies. Paths are joined as \<^verbatim>\<open>posixpath.join\<close>
  does.
\<close>

subsection \<open>Python values and library functions\<close>

text \<open>The arguments of \<^verbatim>\<open>release\<close> are untyped; the checks use \<^verbatim>\<open>isinstance\<close>.\<close>

datatype pyval = PyStr string | PyBool bool | PyInt int | PyNone | PyList "pyval list"

text \<open>\<^verbatim>\<open>os.path.join\<close> of two components; three components are joined left to right.\<close>

definition path_join :: "string \<Rightarrow> string \<Rightarrow> string" where
  "path_join a b =
     (if b \<noteq> [] \<and> hd b = CHR ''/'' then b
      else if a = [] \<or> last a = CHR ''/'' then a @ b
      else a @ ''/'' @ b)"

definition path_join3 :: "string \<Rightarrow> string \<Rightarrow> string \<Rightarrow> string" where
  "path_join3 a b c = path_join (path_join a b) c"

text \<open>\<^verbatim>\<open>str.split(sep)\<close> for a one-character separator.\<close>

fun split_sep :: "char \<Rightarrow> string \<Rightarrow> string list" where
  "split_sep c [] = [[]]"
| "split_sep c (x # xs) =
     (if x = c then [] # split_sep c xs
      else (case split_sep c xs of [] \<Rightarrow> [[x]] | w # ws \<Rightarrow> (x # w) # ws))"

text \<open>
  \<^verbatim>\<open>str(xs)\<close> of a list of strings. The quoting is that of \<^verbatim>\<open>repr\<close> for strings
  with no quote, backslash or control character, which is all the function prints.
\<close>

definition py_repr :: "string \<Rightarrow> string" where
  "py_repr s = [CHR 0x27] @ s @ [CHR 0x27]"

fun comma_sep :: "string list \<Rightarrow> string" where
  "comma_sep [] = []"
| "comma_sep [x] = x"
| "comma_sep (x # y # ys) = x @ '', '' @ comma_sep (y # ys)"

definition py_str_list :: "string list \<Rightarrow> string" where
  "py_str_list xs = ''['' @ comma_sep (map py_repr xs) @ '']''"

subsection \<open>The version pattern\<close>

text \<open>
  \<^verbatim>\<open>re.match(r'^[0-9]+\.[0-9]+\.[0-9]+$', version)\<close>. The items of the pattern are
  matched left to right from the start of the string. A run \<^verbatim>\<open>[0-9]+\<close> is followed
  by \<^verbatim>\<open>\.\<close> or by the end anchor, neither of which accepts a digit, so the longest
  run is the only one that can lead to a match. Without the MULTILINE flag \<^verbatim>\<open>$\<close>
  matches at the end of the string and also just before a newline that ends the string.
\<close>

datatype re_item = Digits1 | Dot

definition is_digit :: "char \<Rightarrow> bool" where
  "is_digit c = (c \<in> set ''0123456789'')"

fun re_items :: "re_item list \<Rightarrow> string \<Rightarrow> string option" where
  "re_items [] s = Some s"
| "re_items (Digits1 # items) s =
     (if takeWhile is_digit s = [] then None else re_items items (dropWhile is_digit s))"
| "re_items (Dot # items) s =
     (case s of [] \<Rightarrow> None | c # r \<Rightarrow> if c = CHR ''.'' then re_items items r else None)"

definition re_dollar :: "string \<Rightarrow> bool" where
  "re_dollar s = (s = [] \<or> s = [CHR 0x0A])"

definition version_pattern :: "re_item list" where
  "version_pattern = [Digits1, Dot, Digits1, Dot, Digits1]"

definition re_match_version :: "string \<Rightarrow> bool" where
  "re_match_version version =
     (case re_items version_pattern version of None \<Rightarrow> False | Some rest \<Rightarrow> re_dollar rest)"

text \<open>
  The pattern as the documentation words it: three dot-separated non-negative integers
  and nothing else.
\<close>

definition is_integer :: "string \<Rightarrow> bool" where
  "is_integer s = (s \<noteq> [] \<and> list_all is_digit s)"

definition semver_xyz :: "string \<Rightarrow> bool" where
  "semver_xyz version =
     (case split_sep (CHR ''.'') version of
        [x, y, z] \<Rightarrow> is_integer x \<and> is_integer y \<and> is_integer z
      | _ \<Rightarrow> False)"

subsection \<open>Module constants\<close>

definition BASE_PYTHON_VERSIONS :: "string list" where
  "BASE_PYTHON_VERSIONS = [''3.6'']"

definition OS_PLATFORMS :: "string list" where
  "OS_PLATFORMS = [''osx-64'', ''linux-64'', ''win-32'', ''win-64'']"

definition GITHUB_URL :: string where
  "GITHUB_URL = ''https://github.com/PSLmodels''"

definition ANACONDA_USER :: string where
  "ANACONDA_USER = ''pslmodels''"

definition ANACONDA_CHANNEL :: string where
  "ANACONDA_CHANNEL = ANACONDA_USER"

definition BUILDS_DIR :: string where
  "BUILDS_DIR = ''pkgbld_output''"

subsection \<open>Events, environment and the interpreter\<close>

datatype event =
    Print string
  | IsFile string
  | IsDir string
  | Rmtree string
  | Mkdir string
  | Chdir string
  | OsCall string
  | FileRevision string string string

datatype error = ValueError string | IndexError | CallFailed event

datatype outcome = Returned | Raised error

datatype step = Call event | Raise error

text \<open>
  The environment of one call: the home directory that \<^verbatim>\<open>os.path.expanduser('~')\<close>
  gives when the module is loaded, the answers of the two filesystem queries, whether a
  filesystem call or external command returns (given the events before it), the name
  that \<^verbatim>\<open>u.conda_platform_name()\<close> returns, and the clock reading of the
  \<open>n\<close>-th call of \<^verbatim>\<open>time.asctime()\<close>.
\<close>

record env =
  HOME_DIR :: string
  isfile :: "string \<Rightarrow> bool"
  isdir :: "string \<Rightarrow> bool"
  succeeds :: "event list \<Rightarrow> event \<Rightarrow> bool"
  conda_platform_name :: string
  asctime :: "nat \<Rightarrow> string"

definition ANACONDA_TOKEN_FILE :: "env \<Rightarrow> string" where
  "ANACONDA_TOKEN_FILE e = path_join (HOME_DIR e) (''.'' @ ANACONDA_USER @ ''_anaconda_token'')"

definition WORKING_DIR :: "env \<Rightarrow> string" where
  "WORKING_DIR e = path_join (HOME_DIR e) ''temporary_pkgbld_working_dir''"

text \<open>Console lines and the two queries do not raise; every other call may.\<close>

fun fallible :: "event \<Rightarrow> bool" where
  "fallible (Print _) = False"
| "fallible (IsFile _) = False"
| "fallible (IsDir _) = False"
| "fallible _ = True"

fun run :: "env \<Rightarrow> event list \<Rightarrow> step list \<Rightarrow> event list \<times> outcome" where
  "run e tr [] = (tr, Returned)"
| "run e tr (Raise err # ss) = (tr, Raised err)"
| "run e tr (Call a # ss) =
     (if fallible a \<and> \<not> succeeds e tr a then (tr @ [a], Raised (CallFailed a))
      else run e (tr @ [a]) ss)"

subsection \<open>The steps of \<^verbatim>\<open>release\<close>\<close>

definition python_versions :: "bool \<Rightarrow> string list" where
  "python_versions also37 =
     (if also37 then BASE_PYTHON_VERSIONS @ [''3.7''] else BASE_PYTHON_VERSIONS)"

definition plan_lines :: "env \<Rightarrow> string \<Rightarrow> string \<Rightarrow> string \<Rightarrow> bool \<Rightarrow> string list" where
  "plan_lines e repo_name pkg_name version also37 =
     ['': Package-Builder will build model packages for:'',
      '':   repository_name = '' @ repo_name,
      '':   package_name = '' @ pkg_name,
      '':   model_version = '' @ version,
      '':   python_versions = '' @ py_str_list (python_versions also37),
      '': Package-Builder will upload model packages to:'',
      '':   Anaconda channel = '' @ ANACONDA_CHANNEL,
      '':   using token in file = '' @ ANACONDA_TOKEN_FILE e]"

definition git_clone_cmd :: "string \<Rightarrow> string \<Rightarrow> string" where
  "git_clone_cmd version repo_name =
     ''git clone --branch '' @ version @ '' --depth 1 '' @ GITHUB_URL @ ''/'' @ repo_name @ ''/''"

definition workspace_steps :: "env \<Rightarrow> step list" where
  "workspace_steps e =
     Call (IsDir (WORKING_DIR e)) #
     (if isdir e (WORKING_DIR e) then [Call (Rmtree (WORKING_DIR e))] else []) @
     [Call (Mkdir (WORKING_DIR e)), Call (Chdir (WORKING_DIR e))]"

definition clone_steps :: "string \<Rightarrow> string \<Rightarrow> step list" where
  "clone_steps repo_name version =
     [Call (Print ('': Package-Builder is cloning repository code for '' @ version)),
      Call (OsCall (git_clone_cmd version repo_name)),
      Call (Chdir repo_name)]"

definition stamp_steps :: "string \<Rightarrow> string \<Rightarrow> step list" where
  "stamp_steps pkg_name version =
     [Call (Print '': Package-Builder is setting version''),
      Call (FileRevision (path_join ''conda.recipe'' ''meta.yaml'')
              ''version: .*'' (''version: '' @ version)),
      Call (FileRevision ''setup.py''
              ''version = .*'' (''version = '' @ [CHR 0x22] @ version @ [CHR 0x22])),
      Call (FileRevision (path_join pkg_name ''__init__.py'')
              ''__version__ = .*'' (''__version__ = '' @ [CHR 0x22] @ version @ [CHR 0x22]))]"

definition conda_build_cmd :: "string \<Rightarrow> string" where
  "conda_build_cmd pyver =
     ''conda build --python '' @ pyver @ '' --old-build-string --channel '' @ ANACONDA_CHANNEL @
     '' --override-channels --no-anaconda-upload --output-folder '' @ BUILDS_DIR @
     '' conda.recipe''"

text \<open>
  \<^verbatim>\<open>pyver_parts = pyver.split('.')\<close> and
  \<^verbatim>\<open>pystr = pyver_parts[0] + pyver_parts[1]\<close>; the second index raises on a version
  with no dot.
\<close>

definition pystr :: "string \<Rightarrow> error + string" where
  "pystr pyver =
     (case split_sep (CHR ''.'') pyver of
        p0 # p1 # _ \<Rightarrow> Inr (p0 @ p1)
      | _ \<Rightarrow> Inl IndexError)"

definition pkgfile :: "string \<Rightarrow> string \<Rightarrow> string \<Rightarrow> error + string" where
  "pkgfile pkg_name version pyver =
     (case pystr pyver of
        Inl err \<Rightarrow> Inl err
      | Inr s \<Rightarrow> Inr (pkg_name @ ''-'' @ version @ ''-py'' @ s @ ''_0.tar.bz2''))"

definition conda_convert_cmd :: "string \<Rightarrow> string \<Rightarrow> string" where
  "conda_convert_cmd platform pkgpath =
     ''conda convert -p '' @ platform @ '' -o '' @ BUILDS_DIR @ '' '' @ pkgpath"

definition anaconda_upload_cmd :: "env \<Rightarrow> string \<Rightarrow> string" where
  "anaconda_upload_cmd e pkgpath =
     ''anaconda -t '' @ ANACONDA_TOKEN_FILE e @ '' upload -u '' @ ANACONDA_USER @
     '' --force '' @ pkgpath"

definition convert_steps :: "string \<Rightarrow> string \<Rightarrow> step list" where
  "convert_steps local_platform file =
     map (\<lambda>platform.
            Call (OsCall (conda_convert_cmd platform
                            (path_join3 BUILDS_DIR local_platform file))))
         (filter (\<lambda>platform. platform \<noteq> local_platform) OS_PLATFORMS)"

definition upload_steps :: "env \<Rightarrow> string \<Rightarrow> step list" where
  "upload_steps e file =
     map (\<lambda>platform.
            Call (OsCall (anaconda_upload_cmd e (path_join3 BUILDS_DIR platform file))))
         OS_PLATFORMS"

text \<open>The body of the loop over \<^verbatim>\<open>python_versions\<close>.\<close>

definition pyver_steps :: "env \<Rightarrow> string \<Rightarrow> string \<Rightarrow> string \<Rightarrow> step list" where
  "pyver_steps e pkg_name version pyver =
     [Call (Print ('': Package-Builder is building package for Python '' @ pyver)),
      Call (OsCall (conda_build_cmd pyver)),
      Call (Print ('': Package-Builder is converting package for Python '' @ pyver))] @
     (case pkgfile pkg_name version pyver of
        Inl err \<Rightarrow> [Raise err]
      | Inr file \<Rightarrow>
          convert_steps (conda_platform_name e) file @
          [Call (Print ('': Package-Builder is uploading packages for Python '' @ pyver))] @
          upload_steps e file)"

definition loop_steps :: "env \<Rightarrow> string \<Rightarrow> string \<Rightarrow> bool \<Rightarrow> step list" where
  "loop_steps e pkg_name version also37 =
     concat (map (pyver_steps e pkg_name version) (python_versions also37))"

definition purge_cmd :: string where
  "purge_cmd = ''conda build purge''"

definition cleanup_steps :: "env \<Rightarrow> step list" where
  "cleanup_steps e =
     [Call (Print '': Package-Builder is cleaning-up''),
      Call (OsCall purge_cmd),
      Call (Chdir (HOME_DIR e)),
      Call (Rmtree (WORKING_DIR e)),
      Call (Print ('': Package-Builder is finishing at '' @ asctime e 1))]"

text \<open>Everything after the plan has been shown and \<^verbatim>\<open>dryrun\<close> found false.\<close>

definition build_steps :: "env \<Rightarrow> string \<Rightarrow> string \<Rightarrow> string \<Rightarrow> bool \<Rightarrow> step list" where
  "build_steps e repo_name pkg_name version also37 =
     [Call (Print ('': Package-Builder is starting at '' @ asctime e 0))] @
     workspace_steps e @
     clone_steps repo_name version @
     stamp_steps pkg_name version @
     loop_steps e pkg_name version also37 @
     cleanup_steps e"

text \<open>The function from the token-file check on, the parameters having their types.\<close>

definition checked_steps ::
  "env \<Rightarrow> string \<Rightarrow> string \<Rightarrow> string \<Rightarrow> bool \<Rightarrow> bool \<Rightarrow> step list" where
  "checked_steps e repo_name pkg_name version also37 dryrun =
     Call (IsFile (ANACONDA_TOKEN_FILE e)) #
     (if \<not> isfile e (ANACONDA_TOKEN_FILE e)
      then [Raise (ValueError (''Anaconda token file '' @ ANACONDA_TOKEN_FILE e @
                                 '' does not exist''))]
      else map (\<lambda>l. Call (Print l)) (plan_lines e repo_name pkg_name version also37) @
           (if dryrun then [Call (Print '': Package-Builder is quitting'')]
            else build_steps e repo_name pkg_name version also37))"

definition release_steps ::
  "env \<Rightarrow> pyval \<Rightarrow> pyval \<Rightarrow> pyval \<Rightarrow> pyval \<Rightarrow> pyval \<Rightarrow> step list" where
  "release_steps e repo_name pkg_name version also37 dryrun =
     (case repo_name of
        PyStr repo \<Rightarrow>
         (case pkg_name of
            PyStr pkg \<Rightarrow>
             (case version of
                PyStr ver \<Rightarrow>
                 (case also37 of
                    PyBool a37 \<Rightarrow>
                     (case dryrun of
                        PyBool dry \<Rightarrow>
                          if \<not> re_match_version ver
                          then [Raise (ValueError (''version='' @ ver @
                                  '' does not have X.Y.Z semantic-versioning pattern''))]
                          else checked_steps e repo pkg ver a37 dry
                      | _ \<Rightarrow> [Raise (ValueError ''dryrun is not a boolean object'')])
                  | _ \<Rightarrow> [Raise (ValueError ''also37 is not a boolean object'')])
              | _ \<Rightarrow> [Raise (ValueError ''version is not a string object'')])
          | _ \<Rightarrow> [Raise (ValueError ''pkg_name is not a string object'')])
      | _ \<Rightarrow> [Raise (ValueError ''repo_name is not a string object'')])"

definition release ::
  "env \<Rightarrow> pyval \<Rightarrow> pyval \<Rightarrow> pyval \<Rightarrow> pyval \<Rightarrow> pyval \<Rightarrow> event list \<times> outcome" where
  "release e repo_name pkg_name version also37 dryrun =
     run e [] (release_steps e repo_name pkg_name version also37 dryrun)"

text \<open>
  A call site may leave out the last two arguments
  (\<^verbatim>\<open>def release(repo_name, pkg_name, version, also37=True, dryrun=False)\<close>).
\<close>

definition release_call ::
  "env \<Rightarrow> pyval \<Rightarrow> pyval \<Rightarrow> pyval \<Rightarrow> pyval option \<Rightarrow> pyval option \<Rightarrow> event list \<times> outcome" where
  "release_call e repo_name pkg_name version also37 dryrun =
     release e repo_name pkg_name version
       (case also37 of None \<Rightarrow> PyBool True | Some v \<Rightarrow> v)
       (case dryrun of None \<Rightarrow> PyBool False | Some v \<Rightarrow> v)"

text \<open>The steps of a build that come before the loop, from the token-file query on.\<close>

definition before_loop_steps :: "env \<Rightarrow> string \<Rightarrow> string \<Rightarrow> string \<Rightarrow> bool \<Rightarrow> step list" where
  "before_loop_steps e repo_name pkg_name version also37 =
     Call (IsFile (ANACONDA_TOKEN_FILE e)) #
     map (\<lambda>l. Call (Print l)) (plan_lines e repo_name pkg_name version also37) @
     [Call (Print ('': Package-Builder is starting at '' @ asctime e 0))] @
     workspace_steps e @ clone_steps repo_name version @ stamp_steps pkg_name version"

text \<open>The events of a build that come before the clone command.\<close>

definition before_clone_events ::
  "env \<Rightarrow> string \<Rightarrow> string \<Rightarrow> string \<Rightarrow> bool \<Rightarrow> event list" where
  "before_clone_events e repo_name pkg_name version also37 =
     IsFile (ANACONDA_TOKEN_FILE e) #
     map Print (plan_lines e repo_name pkg_name version also37) @
     [Print ('': Package-Builder is starting at '' @ asctime e 0),
      IsDir (WORKING_DIR e)] @
     (if isdir e (WORKING_DIR e) then [Rmtree (WORKING_DIR e)] else []) @
     [Mkdir (WORKING_DIR e), Chdir (WORKING_DIR e),
      Print ('': Package-Builder is cloning repository code for '' @ version)]"

subsection \<open>Reading a trace\<close>

text \<open>The events a list of steps performs when no call fails: those before the first raise.\<close>

fun events_of :: "step list \<Rightarrow> event list" where
  "events_of [] = []"
| "events_of (Raise err # ss) = []"
| "events_of (Call a # ss) = a # events_of ss"

fun is_call :: "step \<Rightarrow> bool" where
  "is_call (Call a) = True"
| "is_call (Raise err) = False"

text \<open>
  The calls of a list of events all return, when the events are performed one after the
  other after the trace \<open>tr\<close>.
\<close>

fun all_succeed :: "env \<Rightarrow> event list \<Rightarrow> event list \<Rightarrow> bool" where
  "all_succeed e tr [] = True"
| "all_succeed e tr (a # evs) =
     ((fallible a \<longrightarrow> succeeds e tr a) \<and> all_succeed e (tr @ [a]) evs)"

text \<open>The external commands of a trace (the arguments of \<^verbatim>\<open>u.os_call\<close>), in order.\<close>

fun os_calls :: "event list \<Rightarrow> string list" where
  "os_calls [] = []"
| "os_calls (OsCall cmd # tr) = cmd # os_calls tr"
| "os_calls (a # tr) = os_calls tr"

fun is_file_revision :: "event \<Rightarrow> bool" where
  "is_file_revision (FileRevision f p r) = True"
| "is_file_revision a = False"

definition file_revisions :: "event list \<Rightarrow> event list" where
  "file_revisions tr = filter is_file_revision tr"

text \<open>The two \<^verbatim>\<open>isinstance\<close> tests of the parameter checks.\<close>

fun isinstance_str :: "pyval \<Rightarrow> bool" where
  "isinstance_str (PyStr s) = True"
| "isinstance_str v = False"

fun isinstance_bool :: "pyval \<Rightarrow> bool" where
  "isinstance_bool (PyBool b) = True"
| "isinstance_bool v = False"

text \<open>
  An environment for concrete runs: the token file exists, the working directory does not,
  every call succeeds, the local platform is \<^verbatim>\<open>linux-64\<close>.
\<close>

definition env_ok :: env where
  "env_ok =
     \<lparr>HOME_DIR = ''/home/psl'', isfile = (\<lambda>p. True), isdir = (\<lambda>p. False),
      succeeds = (\<lambda>tr a. True), conda_platform_name = ''linux-64'',
      asctime = (\<lambda>n. ''Mon Jan  1 00:00:00 2018'')\<rparr>"

text \<open>The same environment with a failing \<^verbatim>\<open>git clone\<close> and an old working directory.\<close>

definition env_noclone :: env where
  "env_noclone =
     env_ok\<lparr>isdir := (\<lambda>p. True),
            succeeds := (\<lambda>tr a. case a of OsCall cmd \<Rightarrow> take 9 cmd \<noteq> ''git clone'' | _ \<Rightarrow> True)\<rparr>"

text \<open>The same environment without the token file.\<close>

definition env_notoken :: env where
  "env_notoken = env_ok\<lparr>isfile := (\<lambda>p. False)\<rparr>"

text \<open>An environment in which only the build for \<^verbatim>\<open>3.7\<close> fails.\<close>

definition env_nobuild37 :: env where
  "env_nobuild37 = env_ok\<lparr>succeeds := (\<lambda>tr a. a \<noteq> OsCall (conda_build_cmd ''3.7''))\<rparr>"

section \<open>Properties\<close>

subsection \<open>Paths\<close>

text \<open>Joining a directory name and a relative file name puts one slash between them.\<close>

lemma path_join_plain:
  "a \<noteq> [] \<Longrightarrow> last a \<noteq> CHR ''/'' \<Longrightarrow> b \<noteq> [] \<Longrightarrow> hd b \<noteq> CHR ''/'' \<Longrightarrow>
   path_join a b = a @ ''/'' @ b"
  by (simp add: path_join_def)

subsection \<open>Lists of steps\<close>

lemma events_of_map_Call: "events_of (map (\<lambda>x. Call (f x)) xs @ ss) = map f xs @ events_of ss"
  by (induction xs) auto

lemma events_of_Calls: "events_of (map Call evs) = evs"
  by (induction evs) auto

lemma map_Call_events_of: "list_all is_call ss \<Longrightarrow> map Call (events_of ss) = ss"
proof (induction ss)
  case Nil
  then show ?case by simp
next
  case (Cons s ss)
  then show ?case by (cases s) simp_all
qed

lemma is_call_map_Call: "list_all is_call (map (\<lambda>x. Call (f x)) xs)"
  by (induction xs) simp_all

lemma events_of_append:
  "list_all is_call xs \<Longrightarrow> events_of (xs @ ys) = events_of xs @ events_of ys"
proof (induction xs)
  case Nil
  then show ?case by simp
next
  case (Cons s xs)
  then show ?case by (cases s) simp_all
qed

lemma os_calls_append: "os_calls (xs @ ys) = os_calls xs @ os_calls ys"
  by (induction xs rule: os_calls.induct) auto

lemma os_calls_map_Print: "os_calls (map Print ls) = []"
  by (induction ls) auto

lemma os_calls_map_OsCall: "os_calls (map (\<lambda>x. OsCall (f x)) xs) = map f xs"
  by (induction xs) auto

lemma take_reaches:
  assumes "x \<notin> set P" and "x \<in> set (take n (P @ x # Q))"
  shows "takeWhile (\<lambda>a. a \<noteq> x) (take n (P @ x # Q)) = P"
proof -
  have "length P < n"
  proof (rule ccontr)
    assume "\<not> length P < n"
    then have "take n (P @ x # Q) = take n P" by simp
    then have "x \<in> set P" using assms(2) by (auto dest: in_set_takeD)
    then show False using assms(1) by simp
  qed
  define m where "m = n - Suc (length P)"
  with \<open>length P < n\<close> have "n = length P + Suc m" by simp
  then have tk: "take n (P @ x # Q) = P @ x # take m Q" by simp
  have "takeWhile (\<lambda>a. a \<noteq> x) (P @ x # take m Q) =
        P @ takeWhile (\<lambda>a. a \<noteq> x) (x # take m Q)"
    using assms(1) by (intro takeWhile_append2) auto
  then show ?thesis by (simp only: tk) simp
qed

subsection \<open>The interpreter\<close>

lemma run_trace: "\<exists>n. fst (run e tr ss) = tr @ take n (events_of ss)"
proof (induction ss arbitrary: tr)
  case Nil
  then show ?case by simp
next
  case (Cons s ss)
  show ?case
  proof (cases s)
    case (Raise err)
    then show ?thesis by simp
  next
    case (Call a)
    show ?thesis
    proof (cases "fallible a \<and> \<not> succeeds e tr a")
      case True
      then have "fst (run e tr (s # ss)) = tr @ take 1 (events_of (s # ss))"
        using Call by simp
      then show ?thesis by blast
    next
      case False
      from Cons.IH [of "tr @ [a]"] obtain n where
        "fst (run e (tr @ [a]) ss) = (tr @ [a]) @ take n (events_of ss)" by blast
      then have "fst (run e tr (s # ss)) = tr @ take (Suc n) (events_of (s # ss))"
        using Call False by auto
      then show ?thesis by blast
    qed
  qed
qed

lemma run_Returned:
  "snd (run e tr ss) = Returned \<Longrightarrow>
   fst (run e tr ss) = tr @ events_of ss \<and> list_all is_call ss"
proof (induction ss arbitrary: tr)
  case Nil
  then show ?case by simp
next
  case (Cons s ss)
  show ?case
  proof (cases s)
    case (Raise err)
    then show ?thesis using Cons.prems by simp
  next
    case (Call a)
    show ?thesis
    proof (cases "fallible a \<and> \<not> succeeds e tr a")
      case True
      then show ?thesis using Call Cons.prems by simp
    next
      case False
      then have eq: "run e tr (s # ss) = run e (tr @ [a]) ss"
        using Call by auto
      then have "snd (run e (tr @ [a]) ss) = Returned"
        using Cons.prems by simp
      from Cons.IH [OF this] show ?thesis
        using Call eq by simp
    qed
  qed
qed

lemma run_all_succeed:
  "(\<And>t a. succeeds e t a) \<Longrightarrow> run e tr (map Call evs) = (tr @ evs, Returned)"
  by (induction evs arbitrary: tr) auto

lemma run_infallible:
  "run e tr (map (\<lambda>l. Call (Print l)) ls @ ss) = run e (tr @ map Print ls) ss"
  by (induction ls arbitrary: tr) auto

lemma run_CallFailed:
  "snd (run e tr ss) = Raised (CallFailed a) \<Longrightarrow> Raise (CallFailed a) \<notin> set ss \<Longrightarrow>
   \<exists>pre post. ss = map Call pre @ Call a # post \<and> fst (run e tr ss) = tr @ pre @ [a]"
proof (induction ss arbitrary: tr)
  case Nil
  then show ?case by simp
next
  case (Cons s ss)
  show ?case
  proof (cases s)
    case (Raise err)
    then show ?thesis using Cons.prems by auto
  next
    case (Call b)
    show ?thesis
    proof (cases "fallible b \<and> \<not> succeeds e tr b")
      case True
      then have "b = a" "fst (run e tr (s # ss)) = tr @ [] @ [a]"
        "s # ss = map Call [] @ Call a # ss"
        using Call Cons.prems by auto
      then show ?thesis by blast
    next
      case False
      then have "snd (run e (tr @ [b]) ss) = Raised (CallFailed a)"
        using Call Cons.prems by auto
      moreover have "Raise (CallFailed a) \<notin> set ss" using Cons.prems by simp
      ultimately obtain pre post where
        pp: "ss = map Call pre @ Call a # post"
            "fst (run e (tr @ [b]) ss) = (tr @ [b]) @ pre @ [a]"
        using Cons.IH by blast
      have "s # ss = map Call (b # pre) @ Call a # post" using pp Call by simp
      moreover have "fst (run e tr (s # ss)) = tr @ (b # pre) @ [a]"
        using pp Call False by auto
      ultimately show ?thesis by blast
    qed
  qed
qed

subsection \<open>Commands are told apart by their first words\<close>

lemma build_neq_purge: "conda_build_cmd pyver \<noteq> purge_cmd"
  by (simp add: conda_build_cmd_def purge_cmd_def)

lemma convert_neq_purge: "conda_convert_cmd p x \<noteq> purge_cmd"
  by (simp add: conda_convert_cmd_def purge_cmd_def)

lemma upload_neq_purge: "anaconda_upload_cmd e x \<noteq> purge_cmd"
  by (simp add: anaconda_upload_cmd_def purge_cmd_def)

lemma clone_neq_purge: "git_clone_cmd v r \<noteq> purge_cmd"
  by (simp add: git_clone_cmd_def purge_cmd_def)

lemma build_neq_clone: "conda_build_cmd pyver \<noteq> git_clone_cmd v r"
  by (simp add: conda_build_cmd_def git_clone_cmd_def)

lemma convert_neq_clone: "conda_convert_cmd p x \<noteq> git_clone_cmd v r"
  by (simp add: conda_convert_cmd_def git_clone_cmd_def)

lemma upload_neq_clone: "anaconda_upload_cmd e x \<noteq> git_clone_cmd v r"
  by (simp add: anaconda_upload_cmd_def git_clone_cmd_def)

subsection \<open>The loop body\<close>

lemma pkgfile_python_versions:
  "pyver \<in> set (python_versions also37) \<Longrightarrow>
   pkgfile pkg_name version pyver =
     Inr (pkg_name @ ''-'' @ version @ ''-py'' @ filter (\<lambda>c. c \<noteq> CHR ''.'') pyver @ ''_0.tar.bz2'')"
  by (auto simp: python_versions_def BASE_PYTHON_VERSIONS_def pkgfile_def pystr_def
           split: if_splits)

lemma pyver_steps_kinds:
  "s \<in> set (pyver_steps e pkg_name version pyver) \<Longrightarrow>
   (\<exists>l. s = Call (Print l)) \<or> s = Call (OsCall (conda_build_cmd pyver)) \<or>
   (\<exists>p x. s = Call (OsCall (conda_convert_cmd p x))) \<or>
   (\<exists>x. s = Call (OsCall (anaconda_upload_cmd e x))) \<or> s = Raise IndexError"
  by (auto simp: pyver_steps_def convert_steps_def upload_steps_def pkgfile_def pystr_def
           split: sum.splits list.splits)

lemma loop_steps_kinds:
  assumes "s \<in> set (loop_steps e pkg_name version also37)"
  shows "(\<exists>l. s = Call (Print l)) \<or> (\<exists>pyver. s = Call (OsCall (conda_build_cmd pyver))) \<or>
   (\<exists>p x. s = Call (OsCall (conda_convert_cmd p x))) \<or>
   (\<exists>x. s = Call (OsCall (anaconda_upload_cmd e x))) \<or> s = Raise IndexError"
proof -
  from assms obtain pyver where "s \<in> set (pyver_steps e pkg_name version pyver)"
    unfolding loop_steps_def by auto
  from pyver_steps_kinds [OF this] show ?thesis by blast
qed

lemma pyver_steps_events:
  assumes "pyver \<in> set (python_versions also37)"
  shows "pyver_steps e pkg_name version pyver =
           map Call (events_of (pyver_steps e pkg_name version pyver))"
    and "os_calls (events_of (pyver_steps e pkg_name version pyver)) =
           conda_build_cmd pyver #
           map (\<lambda>platform. conda_convert_cmd platform
                  (path_join3 BUILDS_DIR (conda_platform_name e)
                     (pkg_name @ ''-'' @ version @ ''-py'' @ filter (\<lambda>c. c \<noteq> CHR ''.'') pyver @
                      ''_0.tar.bz2'')))
               (filter (\<lambda>platform. platform \<noteq> conda_platform_name e) OS_PLATFORMS) @
           map (\<lambda>platform. anaconda_upload_cmd e
                  (path_join3 BUILDS_DIR platform
                     (pkg_name @ ''-'' @ version @ ''-py'' @ filter (\<lambda>c. c \<noteq> CHR ''.'') pyver @
                      ''_0.tar.bz2'')))
               OS_PLATFORMS"
    and "filter is_file_revision (events_of (pyver_steps e pkg_name version pyver)) = []"
proof -
  let ?file = "pkg_name @ ''-'' @ version @ ''-py'' @ filter (\<lambda>c. c \<noteq> CHR ''.'') pyver @ ''_0.tar.bz2''"
  let ?convs = "map (\<lambda>platform. OsCall (conda_convert_cmd platform
                  (path_join3 BUILDS_DIR (conda_platform_name e) ?file)))
               (filter (\<lambda>platform. platform \<noteq> conda_platform_name e) OS_PLATFORMS)"
  let ?ups = "map (\<lambda>platform. OsCall (anaconda_upload_cmd e
                  (path_join3 BUILDS_DIR platform ?file))) OS_PLATFORMS"
  let ?evs = "[Print ('': Package-Builder is building package for Python '' @ pyver),
               OsCall (conda_build_cmd pyver),
               Print ('': Package-Builder is converting package for Python '' @ pyver)] @
              ?convs @
              [Print ('': Package-Builder is uploading packages for Python '' @ pyver)] @ ?ups"
  have pf: "pkgfile pkg_name version pyver = Inr ?file"
    using assms by (rule pkgfile_python_versions)
  have steps: "pyver_steps e pkg_name version pyver = map Call ?evs"
    by (simp add: pyver_steps_def pf convert_steps_def upload_steps_def)
  then have evs: "events_of (pyver_steps e pkg_name version pyver) = ?evs"
    by (simp only: events_of_Calls)
  show "pyver_steps e pkg_name version pyver =
           map Call (events_of (pyver_steps e pkg_name version pyver))"
    using steps evs by simp
  show "os_calls (events_of (pyver_steps e pkg_name version pyver)) =
           conda_build_cmd pyver #
           map (\<lambda>platform. conda_convert_cmd platform
                  (path_join3 BUILDS_DIR (conda_platform_name e) ?file))
               (filter (\<lambda>platform. platform \<noteq> conda_platform_name e) OS_PLATFORMS) @
           map (\<lambda>platform. anaconda_upload_cmd e (path_join3 BUILDS_DIR platform ?file))
               OS_PLATFORMS"
    unfolding evs by (simp add: os_calls_append os_calls_map_OsCall)
  show "filter is_file_revision (events_of (pyver_steps e pkg_name version pyver)) = []"
    unfolding evs by (simp add: filter_empty_conv)
qed

subsection \<open>Splitting at a separator\<close>

lemma split_sep_no_sep: "count_list s c = 0 \<Longrightarrow> split_sep c s = [s]"
  by (induction s) (auto split: if_splits)

lemma split_sep_one_sep:
  "count_list s c = 1 \<Longrightarrow>
   \<exists>a b. split_sep c s = [a, b] \<and> a @ b = filter (\<lambda>x. x \<noteq> c) s"
proof (induction s)
  case Nil
  then show ?case by simp
next
  case (Cons x xs)
  show ?case
  proof (cases "x = c")
    case True
    then have "count_list xs c = 0" using Cons.prems by simp
    then have "split_sep c xs = [xs]" "filter (\<lambda>x. x \<noteq> c) xs = xs"
      by (auto simp: split_sep_no_sep count_list_0_iff filter_id_conv)
    then show ?thesis using True by simp
  next
    case False
    then have "count_list xs c = 1" using Cons.prems by simp
    then obtain a b where "split_sep c xs = [a, b]" "a @ b = filter (\<lambda>x. x \<noteq> c) xs"
      using Cons.IH by blast
    then show ?thesis using False by simp
  qed
qed

subsection \<open>The parameter checks\<close>

lemma isinstance_str_iff: "isinstance_str v \<longleftrightarrow> (\<exists>s. v = PyStr s)"
  by (cases v) simp_all

lemma isinstance_bool_iff: "isinstance_bool v \<longleftrightarrow> (\<exists>b. v = PyBool b)"
  by (cases v) simp_all

lemma release_steps_repo_name:
  "\<not> isinstance_str repo_name \<Longrightarrow>
   release_steps e repo_name pkg_name version also37 dryrun =
     [Raise (ValueError ''repo_name is not a string object'')]"
  by (cases repo_name) (simp_all add: release_steps_def)

lemma release_steps_pkg_name:
  "isinstance_str repo_name \<Longrightarrow> \<not> isinstance_str pkg_name \<Longrightarrow>
   release_steps e repo_name pkg_name version also37 dryrun =
     [Raise (ValueError ''pkg_name is not a string object'')]"
  by (cases repo_name; cases pkg_name) (simp_all add: release_steps_def)

lemma release_steps_version:
  "isinstance_str repo_name \<Longrightarrow> isinstance_str pkg_name \<Longrightarrow> \<not> isinstance_str version \<Longrightarrow>
   release_steps e repo_name pkg_name version also37 dryrun =
     [Raise (ValueError ''version is not a string object'')]"
  by (cases version) (auto simp: release_steps_def isinstance_str_iff)

lemma release_steps_also37:
  "isinstance_str repo_name \<Longrightarrow> isinstance_str pkg_name \<Longrightarrow> isinstance_str version \<Longrightarrow>
   \<not> isinstance_bool also37 \<Longrightarrow>
   release_steps e repo_name pkg_name version also37 dryrun =
     [Raise (ValueError ''also37 is not a boolean object'')]"
  by (cases also37) (auto simp: release_steps_def isinstance_str_iff)

lemma release_steps_dryrun:
  "isinstance_str repo_name \<Longrightarrow> isinstance_str pkg_name \<Longrightarrow> isinstance_str version \<Longrightarrow>
   isinstance_bool also37 \<Longrightarrow> \<not> isinstance_bool dryrun \<Longrightarrow>
   release_steps e repo_name pkg_name version also37 dryrun =
     [Raise (ValueError ''dryrun is not a boolean object'')]"
  by (cases dryrun) (auto simp: release_steps_def isinstance_str_iff isinstance_bool_iff)

lemma release_steps_typed:
  "release_steps e (PyStr repo) (PyStr pkg) (PyStr ver) (PyBool a37) (PyBool dry) =
     (if \<not> re_match_version ver
      then [Raise (ValueError (''version='' @ ver @
                     '' does not have X.Y.Z semantic-versioning pattern''))]
      else checked_steps e repo pkg ver a37 dry)"
  by (simp add: release_steps_def)

lemma release_pattern:
  "\<not> re_match_version ver \<Longrightarrow>
   release e (PyStr repo) (PyStr pkg) (PyStr ver) (PyBool a37) (PyBool dry) =
     ([], Raised (ValueError (''version='' @ ver @
                     '' does not have X.Y.Z semantic-versioning pattern'')))"
  by (simp add: release_def release_steps_typed)

lemma release_token:
  "re_match_version ver \<Longrightarrow> \<not> isfile e (ANACONDA_TOKEN_FILE e) \<Longrightarrow>
   release e (PyStr repo) (PyStr pkg) (PyStr ver) (PyBool a37) (PyBool dry) =
     ([IsFile (ANACONDA_TOKEN_FILE e)],
      Raised (ValueError (''Anaconda token file '' @ ANACONDA_TOKEN_FILE e @
                          '' does not exist'')))"
  by (simp add: release_def release_steps_typed checked_steps_def)

lemma release_dryrun:
  "re_match_version ver \<Longrightarrow> isfile e (ANACONDA_TOKEN_FILE e) \<Longrightarrow>
   release e (PyStr repo) (PyStr pkg) (PyStr ver) (PyBool a37) (PyBool True) =
     (IsFile (ANACONDA_TOKEN_FILE e) # map Print (plan_lines e repo pkg ver a37) @
        [Print '': Package-Builder is quitting''],
      Returned)"
  by (simp add: release_def release_steps_typed checked_steps_def run_infallible)

text \<open>The arguments either fail a check or are typed and pass the pattern.\<close>

lemma release_steps_cases:
  "(\<exists>msg. release_steps e repo_name pkg_name version also37 dryrun = [Raise (ValueError msg)]) \<or>
   (\<exists>repo pkg ver a37 dry.
      repo_name = PyStr repo \<and> pkg_name = PyStr pkg \<and> version = PyStr ver \<and>
      also37 = PyBool a37 \<and> dryrun = PyBool dry \<and> re_match_version ver \<and>
      release_steps e repo_name pkg_name version also37 dryrun =
        checked_steps e repo pkg ver a37 dry)"
proof (cases "isinstance_str repo_name \<and> isinstance_str pkg_name \<and> isinstance_str version \<and>
              isinstance_bool also37 \<and> isinstance_bool dryrun")
  case True
  then obtain repo pkg ver a37 dry where
    "repo_name = PyStr repo" "pkg_name = PyStr pkg" "version = PyStr ver"
    "also37 = PyBool a37" "dryrun = PyBool dry"
    by (auto simp: isinstance_str_iff isinstance_bool_iff)
  then show ?thesis by (simp add: release_steps_typed)
next
  case False
  then show ?thesis
    using release_steps_repo_name release_steps_pkg_name release_steps_version
      release_steps_also37 release_steps_dryrun
    by metis
qed

lemma release_raises_ValueError:
  assumes "release_steps e repo_name pkg_name version also37 dryrun = [Raise (ValueError msg)]"
  shows "release e repo_name pkg_name version also37 dryrun = ([], Raised (ValueError msg))"
  by (simp add: release_def assms)

subsection \<open>The steps of a build\<close>

lemma is_call_Calls: "list_all is_call (map Call evs)"
  by (induction evs) simp_all

lemma loop_steps_calls: "list_all is_call (loop_steps e pkg_name version also37)"
proof -
  have "list_all is_call (pyver_steps e pkg_name version pyver)"
    if "pyver \<in> set (python_versions also37)" for pyver
  proof -
    have "pyver_steps e pkg_name version pyver =
          map Call (events_of (pyver_steps e pkg_name version pyver))"
      using that by (rule pyver_steps_events(1))
    then show ?thesis using is_call_Calls by metis
  qed
  then show ?thesis
    by (simp add: loop_steps_def list_all_iff)
qed

lemma checked_steps_build:
  "isfile e (ANACONDA_TOKEN_FILE e) \<Longrightarrow>
   checked_steps e repo_name pkg_name version also37 False =
     before_loop_steps e repo_name pkg_name version also37 @
     loop_steps e pkg_name version also37 @ cleanup_steps e"
  by (simp add: checked_steps_def build_steps_def before_loop_steps_def)

lemma before_loop_steps_calls:
  "list_all is_call (before_loop_steps e repo_name pkg_name version also37)"
  by (simp add: before_loop_steps_def is_call_map_Call workspace_steps_def clone_steps_def
        stamp_steps_def)

lemma cleanup_steps_calls: "list_all is_call (cleanup_steps e)"
  by (simp add: cleanup_steps_def)

lemma events_of_build:
  "isfile e (ANACONDA_TOKEN_FILE e) \<Longrightarrow>
   events_of (checked_steps e repo_name pkg_name version also37 False) =
     events_of (before_loop_steps e repo_name pkg_name version also37) @
     events_of (loop_steps e pkg_name version also37) @ events_of (cleanup_steps e)"
  by (simp add: checked_steps_build events_of_append before_loop_steps_calls loop_steps_calls)

lemma checked_steps_not_Returned:
  "\<not> isfile e (ANACONDA_TOKEN_FILE e) \<Longrightarrow>
   \<not> list_all is_call (checked_steps e repo_name pkg_name version also37 dryrun)"
  by (simp add: checked_steps_def)

subsection \<open>The trace of a build\<close>

lemma events_of_in_steps: "a \<in> set (events_of ss) \<Longrightarrow> Call a \<in> set ss"
proof (induction ss)
  case Nil
  then show ?case by simp
next
  case (Cons s ss)
  then show ?case by (cases s) auto
qed

lemma events_of_concat:
  "(\<And>x. x \<in> set xs \<Longrightarrow> list_all is_call (f x)) \<Longrightarrow>
   events_of (concat (map f xs)) = concat (map (\<lambda>x. events_of (f x)) xs)"
  by (induction xs) (simp_all add: events_of_append)

lemma os_calls_concat: "os_calls (concat xss) = concat (map os_calls xss)"
  by (induction xss) (simp_all add: os_calls_append)

lemma file_revisions_append:
  "file_revisions (xs @ ys) = file_revisions xs @ file_revisions ys"
  by (simp add: file_revisions_def)

lemma file_revisions_map_Print: "file_revisions (map Print ls) = []"
  by (simp add: file_revisions_def filter_empty_conv)

lemma pyver_steps_calls:
  "pyver \<in> set (python_versions also37) \<Longrightarrow>
   list_all is_call (pyver_steps e pkg_name version pyver)"
  using pyver_steps_events(1) is_call_Calls by metis

lemma events_of_loop_steps:
  "events_of (loop_steps e pkg_name version also37) =
     concat (map (\<lambda>pyver. events_of (pyver_steps e pkg_name version pyver))
               (python_versions also37))"
  unfolding loop_steps_def by (rule events_of_concat) (rule pyver_steps_calls)

lemma os_calls_loop_steps:
  "os_calls (events_of (loop_steps e pkg_name version also37)) =
     concat (map (\<lambda>pyver. os_calls (events_of (pyver_steps e pkg_name version pyver)))
               (python_versions also37))"
  by (simp add: events_of_loop_steps os_calls_concat o_def)

lemma file_revisions_loop_steps:
  "file_revisions (events_of (loop_steps e pkg_name version also37)) = []"
proof -
  have "filter is_file_revision (events_of (pyver_steps e pkg_name version pyver)) = []"
    if "pyver \<in> set (python_versions also37)" for pyver
    using that by (rule pyver_steps_events(3))
  then show ?thesis
    by (simp add: events_of_loop_steps file_revisions_def filter_concat)
qed

lemma events_of_before_loop:
  "events_of (before_loop_steps e repo_name pkg_name version also37) =
     IsFile (ANACONDA_TOKEN_FILE e) #
     map Print (plan_lines e repo_name pkg_name version also37) @
     [Print ('': Package-Builder is starting at '' @ asctime e 0),
      IsDir (WORKING_DIR e)] @
     (if isdir e (WORKING_DIR e) then [Rmtree (WORKING_DIR e)] else []) @
     [Mkdir (WORKING_DIR e), Chdir (WORKING_DIR e),
      Print ('': Package-Builder is cloning repository code for '' @ version),
      OsCall (git_clone_cmd version repo_name),
      Chdir repo_name,
      Print '': Package-Builder is setting version'',
      FileRevision (path_join ''conda.recipe'' ''meta.yaml'')
        ''version: .*'' (''version: '' @ version),
      FileRevision ''setup.py''
        ''version = .*'' (''version = '' @ [CHR 0x22] @ version @ [CHR 0x22]),
      FileRevision (path_join pkg_name ''__init__.py'')
        ''__version__ = .*'' (''__version__ = '' @ [CHR 0x22] @ version @ [CHR 0x22])]"
  by (simp add: before_loop_steps_def events_of_map_Call workspace_steps_def clone_steps_def
        stamp_steps_def)

lemma os_calls_before_loop:
  "os_calls (events_of (before_loop_steps e repo_name pkg_name version also37)) =
     [git_clone_cmd version repo_name]"
  by (simp add: events_of_before_loop os_calls_append os_calls_map_Print)

lemma file_revisions_before_loop:
  "file_revisions (events_of (before_loop_steps e repo_name pkg_name version also37)) =
     [FileRevision (path_join ''conda.recipe'' ''meta.yaml'')
        ''version: .*'' (''version: '' @ version),
      FileRevision ''setup.py''
        ''version = .*'' (''version = '' @ [CHR 0x22] @ version @ [CHR 0x22]),
      FileRevision (path_join pkg_name ''__init__.py'')
        ''__version__ = .*'' (''__version__ = '' @ [CHR 0x22] @ version @ [CHR 0x22])]"
  by (simp add: events_of_before_loop file_revisions_append file_revisions_map_Print)
     (simp add: file_revisions_def)

lemma events_of_cleanup:
  "events_of (cleanup_steps e) =
     [Print '': Package-Builder is cleaning-up'', OsCall purge_cmd, Chdir (HOME_DIR e),
      Rmtree (WORKING_DIR e), Print ('': Package-Builder is finishing at '' @ asctime e 1)]"
  by (simp add: cleanup_steps_def)

lemma events_of_checked_other:
  "\<not> isfile e (ANACONDA_TOKEN_FILE e) \<Longrightarrow>
   events_of (checked_steps e repo_name pkg_name version also37 dryrun) =
     [IsFile (ANACONDA_TOKEN_FILE e)]"
  "isfile e (ANACONDA_TOKEN_FILE e) \<Longrightarrow>
   events_of (checked_steps e repo_name pkg_name version also37 True) =
     IsFile (ANACONDA_TOKEN_FILE e) # map Print (plan_lines e repo_name pkg_name version also37) @
     [Print '': Package-Builder is quitting'']"
  by (simp_all add: checked_steps_def events_of_map_Call)

lemma release_trace:
  "\<exists>n. fst (release e repo_name pkg_name version also37 dryrun) =
        take n (events_of (release_steps e repo_name pkg_name version also37 dryrun))"
  using run_trace [of e "[]"] by (simp add: release_def)

lemma release_Returned:
  assumes "snd (release e (PyStr repo) (PyStr pkg) (PyStr ver) (PyBool a37) (PyBool False)) =
           Returned"
  shows "isfile e (ANACONDA_TOKEN_FILE e)" and "re_match_version ver"
    and "fst (release e (PyStr repo) (PyStr pkg) (PyStr ver) (PyBool a37) (PyBool False)) =
         events_of (before_loop_steps e repo pkg ver a37) @
         events_of (loop_steps e pkg ver a37) @ events_of (cleanup_steps e)"
proof -
  let ?steps = "release_steps e (PyStr repo) (PyStr pkg) (PyStr ver) (PyBool a37) (PyBool False)"
  from assms have "snd (run e [] ?steps) = Returned" by (simp add: release_def)
  from run_Returned [OF this]
  have tr: "fst (release e (PyStr repo) (PyStr pkg) (PyStr ver) (PyBool a37) (PyBool False)) =
            events_of ?steps"
    and calls: "list_all is_call ?steps"
    by (simp_all add: release_def)
  show m: "re_match_version ver"
    using calls by (simp add: release_steps_typed split: if_splits)
  then have st: "?steps = checked_steps e repo pkg ver a37 False"
    by (simp add: release_steps_typed)
  show tok: "isfile e (ANACONDA_TOKEN_FILE e)"
    using calls st checked_steps_not_Returned by metis
  show "fst (release e (PyStr repo) (PyStr pkg) (PyStr ver) (PyBool a37) (PyBool False)) =
         events_of (before_loop_steps e repo pkg ver a37) @
         events_of (loop_steps e pkg ver a37) @ events_of (cleanup_steps e)"
    using tr st tok by (simp add: events_of_build)
qed

lemma file_revisions_take: "prefix (file_revisions (take n xs)) (file_revisions xs)"
  unfolding file_revisions_def by (intro filter_mono_prefix take_is_prefix)

lemma release_all_succeed:
  assumes "re_match_version ver" and "isfile e (ANACONDA_TOKEN_FILE e)"
    and "\<And>tr a. succeeds e tr a"
  shows "release e (PyStr repo) (PyStr pkg) (PyStr ver) (PyBool a37) (PyBool False) =
     (events_of (before_loop_steps e repo pkg ver a37) @
      events_of (loop_steps e pkg ver a37) @ events_of (cleanup_steps e), Returned)"
proof -
  let ?steps = "checked_steps e repo pkg ver a37 False"
  have "list_all is_call ?steps"
    using assms(2)
    by (simp add: checked_steps_build before_loop_steps_calls loop_steps_calls
          cleanup_steps_calls)
  then have "?steps = map Call (events_of ?steps)"
    by (simp add: map_Call_events_of)
  then have "run e [] ?steps = ([] @ events_of ?steps, Returned)"
    using run_all_succeed [of e "[]" "events_of ?steps"] assms(3) by simp
  then show ?thesis
    using assms(1,2) by (simp add: release_def release_steps_typed events_of_build)
qed

lemma release_starts_build:
  assumes "re_match_version ver" and "isfile e (ANACONDA_TOKEN_FILE e)"
  shows "\<exists>rest. release e (PyStr repo) (PyStr pkg) (PyStr ver) (PyBool a37) (PyBool False) =
     run e (IsFile (ANACONDA_TOKEN_FILE e) # map Print (plan_lines e repo pkg ver a37) @
              [Print ('': Package-Builder is starting at '' @ asctime e 0),
               IsDir (WORKING_DIR e)]) rest"
proof -
  define rest where "rest =
    (if isdir e (WORKING_DIR e) then [Call (Rmtree (WORKING_DIR e))] else []) @
    [Call (Mkdir (WORKING_DIR e)), Call (Chdir (WORKING_DIR e))] @
    clone_steps repo ver @ stamp_steps pkg ver @ loop_steps e pkg ver a37 @ cleanup_steps e"
  have b: "build_steps e repo pkg ver a37 =
        Call (Print ('': Package-Builder is starting at '' @ asctime e 0)) #
        Call (IsDir (WORKING_DIR e)) # rest"
    by (simp add: build_steps_def workspace_steps_def rest_def)
  have "release e (PyStr repo) (PyStr pkg) (PyStr ver) (PyBool a37) (PyBool False) =
     run e (IsFile (ANACONDA_TOKEN_FILE e) # map Print (plan_lines e repo pkg ver a37) @
              [Print ('': Package-Builder is starting at '' @ asctime e 0),
               IsDir (WORKING_DIR e)]) rest"
    using assms
    by (simp add: release_def release_steps_typed checked_steps_def run_infallible b)
  then show ?thesis ..
qed

lemma run_keeps_trace: "\<exists>more. fst (run e tr ss) = tr @ more"
  using run_trace by blast

subsection \<open>A failed clone\<close>

lemma is_call_no_Raise: "list_all is_call ss \<Longrightarrow> Raise err \<notin> set ss"
  by (induction ss) auto

lemma loop_steps_not_clone:
  "Call (OsCall (git_clone_cmd v r)) \<notin> set (loop_steps e pkg_name version also37)"
proof
  assume "Call (OsCall (git_clone_cmd v r)) \<in> set (loop_steps e pkg_name version also37)"
  from loop_steps_kinds [OF this] show False
    using build_neq_clone convert_neq_clone upload_neq_clone
    by (elim disjE exE) (simp_all, metis+)
qed

lemma loop_events_not_purge:
  "OsCall purge_cmd \<notin> set (events_of (loop_steps e pkg_name version also37))"
proof
  assume "OsCall purge_cmd \<in> set (events_of (loop_steps e pkg_name version also37))"
  then have "Call (OsCall purge_cmd) \<in> set (loop_steps e pkg_name version also37)"
    by (rule events_of_in_steps)
  from loop_steps_kinds [OF this] show False
    using build_neq_purge convert_neq_purge upload_neq_purge
    by (elim disjE exE) (simp_all, metis+)
qed

lemma before_loop_events_not_purge:
  "OsCall purge_cmd \<notin> set (events_of (before_loop_steps e repo_name pkg_name version also37))"
  using clone_neq_purge [of version repo_name]
  by (auto simp: events_of_before_loop)

lemma before_loop_split:
  "before_loop_steps e repo_name pkg_name version also37 =
     (Call (IsFile (ANACONDA_TOKEN_FILE e)) #
      map (\<lambda>l. Call (Print l)) (plan_lines e repo_name pkg_name version also37) @
      [Call (Print ('': Package-Builder is starting at '' @ asctime e 0))] @
      workspace_steps e @
      [Call (Print ('': Package-Builder is cloning repository code for '' @ version))]) @
     Call (OsCall (git_clone_cmd version repo_name)) #
     (Call (Chdir repo_name) # stamp_steps pkg_name version)"
  by (simp add: before_loop_steps_def clone_steps_def)

lemma clone_failed_trace:
  assumes "snd (release e (PyStr repo) (PyStr pkg) (PyStr ver) (PyBool a37) (PyBool dry)) =
           Raised (CallFailed (OsCall (git_clone_cmd ver repo)))"
  shows "fst (release e (PyStr repo) (PyStr pkg) (PyStr ver) (PyBool a37) (PyBool dry)) =
     IsFile (ANACONDA_TOKEN_FILE e) # map Print (plan_lines e repo pkg ver a37) @
     [Print ('': Package-Builder is starting at '' @ asctime e 0), IsDir (WORKING_DIR e)] @
     (if isdir e (WORKING_DIR e) then [Rmtree (WORKING_DIR e)] else []) @
     [Mkdir (WORKING_DIR e), Chdir (WORKING_DIR e),
      Print ('': Package-Builder is cloning repository code for '' @ ver),
      OsCall (git_clone_cmd ver repo)]"
proof -
  let ?r = "release e (PyStr repo) (PyStr pkg) (PyStr ver) (PyBool a37) (PyBool dry)"
  let ?clone = "Call (OsCall (git_clone_cmd ver repo))"
  have m: "re_match_version ver"
  proof (rule ccontr)
    assume "\<not> re_match_version ver"
    then show False using assms by (simp add: release_pattern)
  qed
  have tok: "isfile e (ANACONDA_TOKEN_FILE e)"
  proof (rule ccontr)
    assume "\<not> isfile e (ANACONDA_TOKEN_FILE e)"
    then show False using assms m by (simp add: release_token)
  qed
  have dry: "dry = False"
  proof (rule ccontr)
    assume "dry \<noteq> False"
    then show False using assms m tok by (simp add: release_dryrun)
  qed
  define B1 where "B1 =
     Call (IsFile (ANACONDA_TOKEN_FILE e)) #
     map (\<lambda>l. Call (Print l)) (plan_lines e repo pkg ver a37) @
     [Call (Print ('': Package-Builder is starting at '' @ asctime e 0))] @
     workspace_steps e @
     [Call (Print ('': Package-Builder is cloning repository code for '' @ ver))]"
  define B2 where "B2 =
     (Call (Chdir repo) # stamp_steps pkg ver) @ loop_steps e pkg ver a37 @ cleanup_steps e"
  let ?steps = "checked_steps e repo pkg ver a37 False"
  have steps: "?steps = B1 @ ?clone # B2"
    using tok by (simp add: checked_steps_build before_loop_split B1_def B2_def)
  have calls: "list_all is_call ?steps"
    using tok
    by (simp add: checked_steps_build before_loop_steps_calls loop_steps_calls
          cleanup_steps_calls)
  have rel: "?r = run e [] ?steps"
    using m dry by (simp add: release_def release_steps_typed)
  have "snd (run e [] ?steps) = Raised (CallFailed (OsCall (git_clone_cmd ver repo)))"
    using assms rel by simp
  moreover have "Raise (CallFailed (OsCall (git_clone_cmd ver repo))) \<notin> set ?steps"
    using calls by (rule is_call_no_Raise)
  ultimately obtain pre post where
    pp: "?steps = map Call pre @ ?clone # post"
        "fst (run e [] ?steps) = [] @ pre @ [OsCall (git_clone_cmd ver repo)]"
    using run_CallFailed by blast
  have n1: "?clone \<notin> set B1"
    by (auto simp: B1_def workspace_steps_def)
  have n2: "?clone \<notin> set B2"
    using loop_steps_not_clone [of ver repo e pkg ver a37] clone_neq_purge [of ver repo]
    by (auto simp: B2_def stamp_steps_def cleanup_steps_def)
  have "B1 @ ?clone # B2 = map Call pre @ ?clone # post"
    using steps pp(1) by simp
  then have "B1 = map Call pre"
    using n1 n2 by (simp add: append_Cons_eq_iff)
  then have "pre = events_of B1"
    by (simp add: events_of_Calls)
  then have "fst ?r = events_of B1 @ [OsCall (git_clone_cmd ver repo)]"
    using pp(2) rel by simp
  then show ?thesis
    by (simp add: B1_def events_of_map_Call workspace_steps_def)
qed

subsection \<open>The pattern and its wording\<close>

lemma dot_no_digit: "\<not> is_digit (CHR ''.'')"
  by (simp add: is_digit_def)

lemma newline_no_digit: "\<not> is_digit (CHR 0x0A)"
  by (simp add: is_digit_def)

lemma is_integer_no_dot: "is_integer x \<Longrightarrow> CHR ''.'' \<notin> set x"
  using dot_no_digit by (auto simp: is_integer_def list_all_iff)

lemma split_sep_none: "c \<notin> set x \<Longrightarrow> split_sep c x = [x]"
  by (induction x) auto

lemma split_sep_first: "c \<notin> set x \<Longrightarrow> split_sep c (x @ c # r) = x # split_sep c r"
  by (induction x) auto

lemma split_sep_nonempty: "split_sep c s \<noteq> []"
  by (induction s) (auto split: list.splits)

lemma split_sep_single: "split_sep c s = [x] \<Longrightarrow> s = x"
proof (induction s arbitrary: x)
  case Nil
  then show ?case by simp
next
  case (Cons a s)
  then show ?case
    by (auto split: if_splits list.splits simp: split_sep_nonempty)
qed

lemma split_sep_more:
  "split_sep c s = x # y # ws \<Longrightarrow> \<exists>r. s = x @ c # r \<and> split_sep c r = y # ws"
proof (induction s arbitrary: x)
  case Nil
  then show ?case by simp
next
  case (Cons a s)
  show ?case
  proof (cases "a = c")
    case True
    then have "x = []" "split_sep c s = y # ws" using Cons.prems by auto
    then show ?thesis using True by simp
  next
    case False
    then obtain w where w: "split_sep c s = w # y # ws" "x = a # w"
      using Cons.prems by (auto split: list.splits)
    from Cons.IH [OF w(1)] obtain r where "s = w @ c # r" "split_sep c r = y # ws"
      by blast
    then show ?thesis using w(2) by simp
  qed
qed

lemma semver_xyz_iff:
  "semver_xyz v \<longleftrightarrow>
   (\<exists>x y z. v = x @ CHR ''.'' # y @ CHR ''.'' # z \<and>
            is_integer x \<and> is_integer y \<and> is_integer z)"
proof
  assume "semver_xyz v"
  then obtain x y z where s: "split_sep (CHR ''.'') v = [x, y, z]"
    and i: "is_integer x" "is_integer y" "is_integer z"
    by (auto simp: semver_xyz_def split: list.splits)
  from split_sep_more [OF s] obtain r where r: "v = x @ CHR ''.'' # r"
    "split_sep (CHR ''.'') r = [y, z]" by blast
  from split_sep_more [OF r(2)] obtain r' where r': "r = y @ CHR ''.'' # r'"
    "split_sep (CHR ''.'') r' = [z]" by blast
  from split_sep_single [OF r'(2)] have "r' = z" .
  then have "v = x @ CHR ''.'' # y @ CHR ''.'' # z" using r(1) r'(1) by simp
  then show "\<exists>x y z. v = x @ CHR ''.'' # y @ CHR ''.'' # z \<and>
            is_integer x \<and> is_integer y \<and> is_integer z"
    using i by blast
next
  assume "\<exists>x y z. v = x @ CHR ''.'' # y @ CHR ''.'' # z \<and>
            is_integer x \<and> is_integer y \<and> is_integer z"
  then obtain x y z where v: "v = x @ CHR ''.'' # y @ CHR ''.'' # z"
    and i: "is_integer x" "is_integer y" "is_integer z"
    by blast
  have "split_sep (CHR ''.'') v = [x, y, z]"
    unfolding v using i
    by (simp add: split_sep_first split_sep_none is_integer_no_dot)
  then show "semver_xyz v"
    using i by (simp add: semver_xyz_def)
qed

lemma takeWhile_run:
  "list_all P xs \<Longrightarrow> (r = [] \<or> \<not> P (hd r)) \<Longrightarrow> takeWhile P (xs @ r) = xs"
  by (induction xs) (auto simp: takeWhile_eq_Nil_iff)

lemma dropWhile_run:
  "list_all P xs \<Longrightarrow> (r = [] \<or> \<not> P (hd r)) \<Longrightarrow> dropWhile P (xs @ r) = r"
  by (induction xs) (auto simp: dropWhile_eq_self_iff)

lemma re_items_version:
  "re_items version_pattern v = Some rest \<longleftrightarrow>
   (\<exists>x y z. v = x @ CHR ''.'' # y @ CHR ''.'' # z @ rest \<and>
            is_integer x \<and> is_integer y \<and> is_integer z \<and>
            (rest = [] \<or> \<not> is_digit (hd rest)))"
proof
  assume a: "re_items version_pattern v = Some rest"
  define x where "x = takeWhile is_digit v"
  define r1 where "r1 = dropWhile is_digit v"
  have v: "v = x @ r1" by (simp add: x_def r1_def)
  have x: "is_integer x"
    using a by (auto simp: version_pattern_def x_def is_integer_def list_all_iff
        dest: set_takeWhileD split: if_splits)
  have a1: "re_items [Dot, Digits1, Dot, Digits1] r1 = Some rest"
    using a by (simp add: version_pattern_def r1_def split: if_splits)
  then obtain r2 where r1: "r1 = CHR ''.'' # r2"
    and a2: "re_items [Digits1, Dot, Digits1] r2 = Some rest"
    by (cases r1) (auto split: if_splits)
  define y where "y = takeWhile is_digit r2"
  define r3 where "r3 = dropWhile is_digit r2"
  have r2: "r2 = y @ r3" by (simp add: y_def r3_def)
  have y: "is_integer y"
    using a2 by (auto simp: y_def is_integer_def list_all_iff
        dest: set_takeWhileD split: if_splits)
  have a3: "re_items [Dot, Digits1] r3 = Some rest"
    using a2 by (simp add: r3_def split: if_splits)
  then obtain r4 where r3: "r3 = CHR ''.'' # r4"
    and a4: "re_items [Digits1] r4 = Some rest"
    by (cases r3) (auto split: if_splits)
  define z where "z = takeWhile is_digit r4"
  have rest: "rest = dropWhile is_digit r4"
    using a4 by (simp split: if_splits)
  have r4: "r4 = z @ rest" by (simp add: z_def rest)
  have z: "is_integer z"
    using a4 by (auto simp: z_def is_integer_def list_all_iff
        dest: set_takeWhileD split: if_splits)
  have "rest = [] \<or> \<not> is_digit (hd rest)"
    unfolding rest by (metis hd_dropWhile)
  moreover have "v = x @ CHR ''.'' # y @ CHR ''.'' # z @ rest"
    using v r1 r2 r3 r4 by simp
  ultimately show "\<exists>x y z. v = x @ CHR ''.'' # y @ CHR ''.'' # z @ rest \<and>
            is_integer x \<and> is_integer y \<and> is_integer z \<and>
            (rest = [] \<or> \<not> is_digit (hd rest))"
    using x y z by blast
next
  assume "\<exists>x y z. v = x @ CHR ''.'' # y @ CHR ''.'' # z @ rest \<and>
            is_integer x \<and> is_integer y \<and> is_integer z \<and>
            (rest = [] \<or> \<not> is_digit (hd rest))"
  then obtain x y z where v: "v = x @ CHR ''.'' # y @ CHR ''.'' # z @ rest"
    and i: "is_integer x" "is_integer y" "is_integer z"
    and rest: "rest = [] \<or> \<not> is_digit (hd rest)"
    by blast
  have tx: "takeWhile is_digit (x @ CHR ''.'' # y @ CHR ''.'' # z @ rest) = x"
    and dx: "dropWhile is_digit (x @ CHR ''.'' # y @ CHR ''.'' # z @ rest) =
             CHR ''.'' # y @ CHR ''.'' # z @ rest"
    using i(1) dot_no_digit
    by (simp_all add: takeWhile_run dropWhile_run is_integer_def)
  have ty: "takeWhile is_digit (y @ CHR ''.'' # z @ rest) = y"
    and dy: "dropWhile is_digit (y @ CHR ''.'' # z @ rest) = CHR ''.'' # z @ rest"
    using i(2) dot_no_digit
    by (simp_all add: takeWhile_run dropWhile_run is_integer_def)
  have tz: "takeWhile is_digit (z @ rest) = z"
    and dz: "dropWhile is_digit (z @ rest) = rest"
    using i(3) rest
    by (simp_all add: takeWhile_run dropWhile_run is_integer_def)
  show "re_items version_pattern v = Some rest"
    using i by (simp add: version_pattern_def v tx dx ty dy tz dz is_integer_def)
qed

text \<open>
  The strings that \<^verbatim>\<open>re.match\<close> accepts are the versions of the form X.Y.Z and those
  followed by one newline.
\<close>

lemma re_match_version_iff:
  "re_match_version v \<longleftrightarrow>
   semver_xyz v \<or> (\<exists>w. v = w @ [CHR 0x0A] \<and> semver_xyz w)"
proof
  assume "re_match_version v"
  then obtain rest where a: "re_items version_pattern v = Some rest" and d: "re_dollar rest"
    by (auto simp: re_match_version_def split: option.splits)
  from a obtain x y z where v: "v = x @ CHR ''.'' # y @ CHR ''.'' # z @ rest"
    and i: "is_integer x" "is_integer y" "is_integer z"
    unfolding re_items_version by blast
  have w: "semver_xyz (x @ CHR ''.'' # y @ CHR ''.'' # z)"
    unfolding semver_xyz_iff using i by blast
  from d consider "rest = []" | "rest = [CHR 0x0A]"
    by (auto simp: re_dollar_def)
  then show "semver_xyz v \<or> (\<exists>w. v = w @ [CHR 0x0A] \<and> semver_xyz w)"
  proof cases
    case 1
    then show ?thesis using v w by simp
  next
    case 2
    then have "v = (x @ CHR ''.'' # y @ CHR ''.'' # z) @ [CHR 0x0A]" using v by simp
    then show ?thesis using w by blast
  qed
next
  assume "semver_xyz v \<or> (\<exists>w. v = w @ [CHR 0x0A] \<and> semver_xyz w)"
  then obtain w rest where v: "v = w @ rest" and w: "semver_xyz w"
    and rest: "rest = [] \<or> rest = [CHR 0x0A]"
    by (metis append_Nil2)
  from w obtain x y z where xyz: "w = x @ CHR ''.'' # y @ CHR ''.'' # z"
    and i: "is_integer x" "is_integer y" "is_integer z"
    unfolding semver_xyz_iff by blast
  have "rest = [] \<or> \<not> is_digit (hd rest)"
    using rest newline_no_digit by auto
  then have "re_items version_pattern v = Some rest"
    unfolding re_items_version using v xyz i by auto
  then show "re_match_version v"
    using rest by (auto simp: re_match_version_def re_dollar_def)
qed

subsection \<open>Failing calls\<close>

lemma run_all_succeed_prefix:
  "all_succeed e tr evs \<Longrightarrow> run e tr (map Call evs @ rest) = run e (tr @ evs) rest"
proof (induction evs arbitrary: tr)
  case Nil
  then show ?case by simp
next
  case (Cons a evs)
  then have ok: "\<not> (fallible a \<and> \<not> succeeds e tr a)" and rest: "all_succeed e (tr @ [a]) evs"
    by simp_all
  from ok have "run e tr (map Call (a # evs) @ rest) = run e (tr @ [a]) (map Call evs @ rest)"
    by auto
  also have "\<dots> = run e ((tr @ [a]) @ evs) rest"
    using rest by (rule Cons.IH)
  finally show ?case by simp
qed

lemma run_failed_last:
  "fst (run e tr ss) = tr @ pre @ a # post \<Longrightarrow> fallible a \<Longrightarrow>
   \<not> succeeds e (tr @ pre) a \<Longrightarrow>
   post = [] \<and> snd (run e tr ss) = Raised (CallFailed a)"
proof (induction ss arbitrary: tr pre)
  case Nil
  then show ?case by simp
next
  case (Cons s ss)
  show ?case
  proof (cases s)
    case (Raise err)
    then show ?thesis using Cons.prems(1) by simp
  next
    case (Call b)
    show ?thesis
    proof (cases "fallible b \<and> \<not> succeeds e tr b")
      case True
      then have r: "run e tr (s # ss) = (tr @ [b], Raised (CallFailed b))"
        using Call by simp
      then have "[b] = pre @ a # post" using Cons.prems(1) by simp
      then have "pre = []" "a = b" "post = []"
        by (simp_all add: Cons_eq_append_conv)
      then show ?thesis using r by simp
    next
      case False
      then have r: "run e tr (s # ss) = run e (tr @ [b]) ss"
        using Call by auto
      obtain n where n: "fst (run e (tr @ [b]) ss) = (tr @ [b]) @ take n (events_of ss)"
        using run_trace by blast
      then have eq: "b # take n (events_of ss) = pre @ a # post"
        using Cons.prems(1) r by simp
      show ?thesis
      proof (cases pre)
        case Nil
        then have "a = b" using eq by simp
        then show ?thesis using False Cons.prems(2,3) Nil by simp
      next
        case (Cons p pre')
        then have p: "p = b" and t: "take n (events_of ss) = pre' @ a # post"
          using eq by simp_all
        have "fst (run e (tr @ [b]) ss) = (tr @ [b]) @ pre' @ a # post"
          using n t by simp
        moreover have "\<not> succeeds e ((tr @ [b]) @ pre') a"
          using Cons.prems(3) Cons p by simp
        ultimately have "post = [] \<and> snd (run e (tr @ [b]) ss) = Raised (CallFailed a)"
          using Cons.prems(2) by (intro Cons.IH)
        then show ?thesis using r by simp
      qed
    qed
  qed
qed

lemma run_prefix_succeed:
  "fst (run e tr ss) = tr @ xs @ y # ys \<Longrightarrow> all_succeed e tr xs"
proof (induction ss arbitrary: tr xs)
  case Nil
  then show ?case by simp
next
  case (Cons s ss)
  show ?case
  proof (cases s)
    case (Raise err)
    then show ?thesis using Cons.prems by simp
  next
    case (Call b)
    show ?thesis
    proof (cases "fallible b \<and> \<not> succeeds e tr b")
      case True
      then have "run e tr (s # ss) = (tr @ [b], Raised (CallFailed b))"
        using Call by simp
      then have "[b] = xs @ y # ys" using Cons.prems by simp
      then have "xs = []" by (simp add: Cons_eq_append_conv)
      then show ?thesis by simp
    next
      case False
      then have r: "run e tr (s # ss) = run e (tr @ [b]) ss"
        using Call by auto
      obtain n where n: "fst (run e (tr @ [b]) ss) = (tr @ [b]) @ take n (events_of ss)"
        using run_trace by blast
      then have eq: "b # take n (events_of ss) = xs @ y # ys"
        using Cons.prems r by simp
      show ?thesis
      proof (cases xs)
        case Nil
        then show ?thesis by simp
      next
        case (Cons x xs')
        then have x: "x = b" and t: "take n (events_of ss) = xs' @ y # ys"
          using eq by simp_all
        have "fst (run e (tr @ [b]) ss) = (tr @ [b]) @ xs' @ y # ys"
          using n t by simp
        then have "all_succeed e (tr @ [b]) xs'"
          by (rule Cons.IH)
        then show ?thesis using False Cons x by auto
      qed
    qed
  qed
qed

lemma in_os_calls: "c \<in> set (os_calls tr) \<longleftrightarrow> OsCall c \<in> set tr"
  by (induction tr rule: os_calls.induct) auto

lemma prefix_dropWhile: "prefix xs ys \<Longrightarrow> prefix (dropWhile P xs) (dropWhile P ys)"
proof (induction xs arbitrary: ys)
  case Nil
  then show ?case by simp
next
  case (Cons x xs)
  from Cons.prems obtain ys' where ys: "ys = x # ys'" and p: "prefix xs ys'"
    by (auto simp: prefix_def)
  show ?case
  proof (cases "P x")
    case True
    then show ?thesis using ys Cons.IH [OF p] by simp
  next
    case False
    then show ?thesis using ys p by simp
  qed
qed

lemma take_misses:
  "x \<notin> set (take n (P @ x # Q)) \<Longrightarrow> take n (P @ x # Q) = take n P"
proof (cases "n \<le> length P")
  case True
  then show ?thesis by simp
next
  case False
  assume a: "x \<notin> set (take n (P @ x # Q))"
  define m where "m = n - Suc (length P)"
  with False have "n = length P + Suc m" by simp
  then have "take n (P @ x # Q) = P @ x # take m Q" by simp
  then show ?thesis using a by simp
qed

lemma take_hits:
  "x \<notin> set P \<Longrightarrow> x \<in> set (take n (P @ x # Q)) \<Longrightarrow>
   \<exists>k. take n (P @ x # Q) = P @ x # take k Q"
proof -
  assume a: "x \<notin> set P" and b: "x \<in> set (take n (P @ x # Q))"
  have "\<not> n \<le> length P"
  proof
    assume "n \<le> length P"
    then have "take n (P @ x # Q) = take n P" by simp
    then have "x \<in> set P" using b by (auto dest: in_set_takeD)
    then show False using a by simp
  qed
  define m where "m = n - Suc (length P)"
  with \<open>\<not> n \<le> length P\<close> have "n = length P + Suc m" by simp
  then have "take n (P @ x # Q) = P @ x # take m Q" by simp
  then show ?thesis by blast
qed

lemma checked_steps_clone_split:
  "isfile e (ANACONDA_TOKEN_FILE e) \<Longrightarrow>
   checked_steps e repo_name pkg_name version also37 False =
     map Call (before_clone_events e repo_name pkg_name version also37) @
     Call (OsCall (git_clone_cmd version repo_name)) #
     (Call (Chdir repo_name) # stamp_steps pkg_name version @
      loop_steps e pkg_name version also37 @ cleanup_steps e)"
  by (simp add: checked_steps_def build_steps_def workspace_steps_def clone_steps_def
        before_clone_events_def)

lemma clone_fails:
  assumes "re_match_version ver" and "isfile e (ANACONDA_TOKEN_FILE e)"
    and "all_succeed e [] (before_clone_events e repo pkg ver a37)"
    and "\<not> succeeds e (before_clone_events e repo pkg ver a37) (OsCall (git_clone_cmd ver repo))"
  shows "release e (PyStr repo) (PyStr pkg) (PyStr ver) (PyBool a37) (PyBool False) =
     (before_clone_events e repo pkg ver a37 @ [OsCall (git_clone_cmd ver repo)],
      Raised (CallFailed (OsCall (git_clone_cmd ver repo))))"
proof -
  let ?T0 = "before_clone_events e repo pkg ver a37"
  let ?B2 = "Call (Chdir repo) # stamp_steps pkg ver @ loop_steps e pkg ver a37 @
             cleanup_steps e"
  have "release e (PyStr repo) (PyStr pkg) (PyStr ver) (PyBool a37) (PyBool False) =
        run e [] (map Call ?T0 @ Call (OsCall (git_clone_cmd ver repo)) # ?B2)"
    using assms(1,2) by (simp add: release_def release_steps_typed checked_steps_clone_split)
  also have "\<dots> = run e ([] @ ?T0) (Call (OsCall (git_clone_cmd ver repo)) # ?B2)"
    using assms(3) by (rule run_all_succeed_prefix)
  also have "\<dots> = (?T0 @ [OsCall (git_clone_cmd ver repo)],
                   Raised (CallFailed (OsCall (git_clone_cmd ver repo))))"
    using assms(4) by simp
  finally show ?thesis .
qed

lemma before_clone_events_facts:
  "file_revisions (before_clone_events e repo pkg ver a37 @ [OsCall c]) = []"
  "os_calls (before_clone_events e repo pkg ver a37 @ [OsCall c]) = [c]"
  "dropWhile (\<lambda>a. a \<noteq> Mkdir (WORKING_DIR e))
     (before_clone_events e repo pkg ver a37 @ [OsCall c]) =
     [Mkdir (WORKING_DIR e), Chdir (WORKING_DIR e),
      Print ('': Package-Builder is cloning repository code for '' @ ver), OsCall c]"
proof -
  let ?W = "WORKING_DIR e"
  let ?H = "IsFile (ANACONDA_TOKEN_FILE e) # map Print (plan_lines e repo pkg ver a37) @
     [Print ('': Package-Builder is starting at '' @ asctime e 0), IsDir ?W] @
     (if isdir e ?W then [Rmtree ?W] else [])"
  let ?R = "[Mkdir ?W, Chdir ?W,
      Print ('': Package-Builder is cloning repository code for '' @ ver), OsCall c]"
  have split: "before_clone_events e repo pkg ver a37 @ [OsCall c] = ?H @ ?R"
    by (simp add: before_clone_events_def)
  show "file_revisions (before_clone_events e repo pkg ver a37 @ [OsCall c]) = []"
    unfolding split by (simp add: file_revisions_def filter_empty_conv)
  show "os_calls (before_clone_events e repo pkg ver a37 @ [OsCall c]) = [c]"
    unfolding split by (simp add: os_calls_append os_calls_map_Print)
  have "dropWhile (\<lambda>a. a \<noteq> Mkdir ?W) (?H @ ?R) = dropWhile (\<lambda>a. a \<noteq> Mkdir ?W) ?R"
    by (rule dropWhile_append2) auto
  then show "dropWhile (\<lambda>a. a \<noteq> Mkdir ?W)
     (before_clone_events e repo pkg ver a37 @ [OsCall c]) = ?R"
    unfolding split by simp
qed

lemma loop_events_not_Rmtree:
  "Rmtree p \<notin> set (events_of (loop_steps e pkg_name version also37))"
proof
  assume "Rmtree p \<in> set (events_of (loop_steps e pkg_name version also37))"
  then have "Call (Rmtree p) \<in> set (loop_steps e pkg_name version also37)"
    by (rule events_of_in_steps)
  from loop_steps_kinds [OF this] show False
    by (elim disjE exE) simp_all
qed

lemma before_purge_no_Rmtree:
  "Rmtree (WORKING_DIR e) \<notin>
   set (dropWhile (\<lambda>a. a \<noteq> Mkdir (WORKING_DIR e))
          (events_of (before_loop_steps e repo pkg ver a37) @
           events_of (loop_steps e pkg ver a37) @ [Print l]))"
proof -
  let ?W = "WORKING_DIR e"
  let ?H = "IsFile (ANACONDA_TOKEN_FILE e) # map Print (plan_lines e repo pkg ver a37) @
     [Print ('': Package-Builder is starting at '' @ asctime e 0), IsDir ?W] @
     (if isdir e ?W then [Rmtree ?W] else [])"
  let ?R = "[Mkdir ?W, Chdir ?W,
      Print ('': Package-Builder is cloning repository code for '' @ ver),
      OsCall (git_clone_cmd ver repo),
      Chdir repo,
      Print '': Package-Builder is setting version'',
      FileRevision (path_join ''conda.recipe'' ''meta.yaml'')
        ''version: .*'' (''version: '' @ ver),
      FileRevision ''setup.py''
        ''version = .*'' (''version = '' @ [CHR 0x22] @ ver @ [CHR 0x22]),
      FileRevision (path_join pkg ''__init__.py'')
        ''__version__ = .*'' (''__version__ = '' @ [CHR 0x22] @ ver @ [CHR 0x22])] @
      events_of (loop_steps e pkg ver a37) @ [Print l]"
  have split: "events_of (before_loop_steps e repo pkg ver a37) @
           events_of (loop_steps e pkg ver a37) @ [Print l] = ?H @ ?R"
    by (simp add: events_of_before_loop)
  have "dropWhile (\<lambda>a. a \<noteq> Mkdir ?W) (?H @ ?R) = dropWhile (\<lambda>a. a \<noteq> Mkdir ?W) ?R"
    by (rule dropWhile_append2) auto
  then have "dropWhile (\<lambda>a. a \<noteq> Mkdir ?W) (?H @ ?R) = ?R"
    by simp
  moreover have "Rmtree ?W \<notin> set ?R"
    using loop_events_not_Rmtree [of ?W e pkg ver a37] by simp
  ultimately show ?thesis
    unfolding split by simp
qed

lemma os_call_in_trace:
  assumes "OsCall c \<in>
     set (fst (release e (PyStr repo) (PyStr pkg) (PyStr ver) (PyBool a37) (PyBool dry)))"
  shows "\<exists>n. fst (release e (PyStr repo) (PyStr pkg) (PyStr ver) (PyBool a37) (PyBool dry)) =
     take n ((events_of (before_loop_steps e repo pkg ver a37) @
              events_of (loop_steps e pkg ver a37) @
              [Print '': Package-Builder is cleaning-up'']) @
             OsCall purge_cmd #
             [Chdir (HOME_DIR e), Rmtree (WORKING_DIR e),
              Print ('': Package-Builder is finishing at '' @ asctime e 1)])"
proof -
  let ?r = "release e (PyStr repo) (PyStr pkg) (PyStr ver) (PyBool a37) (PyBool dry)"
  let ?steps = "release_steps e (PyStr repo) (PyStr pkg) (PyStr ver) (PyBool a37) (PyBool dry)"
  obtain n where n: "fst ?r = take n (events_of ?steps)"
    using release_trace by blast
  then have inE: "OsCall c \<in> set (events_of ?steps)"
    using assms by (auto dest: in_set_takeD)
  have m: "re_match_version ver"
  proof (rule ccontr)
    assume "\<not> re_match_version ver"
    then show False using inE by (simp add: release_steps_typed)
  qed
  have tok: "isfile e (ANACONDA_TOKEN_FILE e)"
  proof (rule ccontr)
    assume "\<not> isfile e (ANACONDA_TOKEN_FILE e)"
    then show False using inE m by (simp add: release_steps_typed events_of_checked_other)
  qed
  have dry: "dry = False"
  proof (rule ccontr)
    assume "dry \<noteq> False"
    then show False using inE m tok
      by (auto simp: release_steps_typed events_of_checked_other)
  qed
  have "events_of ?steps =
     (events_of (before_loop_steps e repo pkg ver a37) @
      events_of (loop_steps e pkg ver a37) @ [Print '': Package-Builder is cleaning-up'']) @
     OsCall purge_cmd #
     [Chdir (HOME_DIR e), Rmtree (WORKING_DIR e),
      Print ('': Package-Builder is finishing at '' @ asctime e 1)]"
    using m tok dry by (simp add: release_steps_typed events_of_build events_of_cleanup)
  then show ?thesis using n by (intro exI [of _ n]) simp
qed

lemma purge_not_before:
  "OsCall purge_cmd \<notin>
   set (events_of (before_loop_steps e repo pkg ver a37) @
        events_of (loop_steps e pkg ver a37) @ [Print l])"
  using before_loop_events_not_purge [of e repo pkg ver a37]
    loop_events_not_purge [of e pkg ver a37]
  by simp

lemma failed_command_no_cleanup:
  assumes tr: "fst (release e (PyStr repo) (PyStr pkg) (PyStr ver) (PyBool a37) (PyBool dry)) =
               pre @ OsCall c # post"
    and fail: "\<not> succeeds e pre (OsCall c)"
    and c: "c \<noteq> purge_cmd"
  shows "OsCall purge_cmd \<notin>
           set (fst (release e (PyStr repo) (PyStr pkg) (PyStr ver) (PyBool a37) (PyBool dry)))"
    and "Rmtree (WORKING_DIR e) \<notin>
           set (dropWhile (\<lambda>a. a \<noteq> Mkdir (WORKING_DIR e))
                  (fst (release e (PyStr repo) (PyStr pkg) (PyStr ver) (PyBool a37)
                          (PyBool dry))))"
proof -
  let ?r = "release e (PyStr repo) (PyStr pkg) (PyStr ver) (PyBool a37) (PyBool dry)"
  let ?P = "events_of (before_loop_steps e repo pkg ver a37) @
            events_of (loop_steps e pkg ver a37) @ [Print '': Package-Builder is cleaning-up'']"
  let ?Q = "[Chdir (HOME_DIR e), Rmtree (WORKING_DIR e),
            Print ('': Package-Builder is finishing at '' @ asctime e 1)]"
  have "fst (run e [] (release_steps e (PyStr repo) (PyStr pkg) (PyStr ver) (PyBool a37)
          (PyBool dry))) = [] @ pre @ OsCall c # post"
    using tr by (simp add: release_def)
  moreover have "\<not> succeeds e ([] @ pre) (OsCall c)" using fail by simp
  ultimately have "post = []"
    using run_failed_last [of e "[]" _ pre "OsCall c" post] by simp
  then have last: "fst ?r = pre @ [OsCall c]" using tr by simp
  have "OsCall c \<in> set (fst ?r)" using tr by simp
  from os_call_in_trace [OF this] obtain n
    where n: "fst ?r = take n (?P @ OsCall purge_cmd # ?Q)" ..
  have notP: "OsCall purge_cmd \<notin> set ?P" by (rule purge_not_before)
  show no_purge: "OsCall purge_cmd \<notin> set (fst ?r)"
  proof
    assume "OsCall purge_cmd \<in> set (fst ?r)"
    then have "OsCall purge_cmd \<in> set (take n (?P @ OsCall purge_cmd # ?Q))"
      using n by simp
    from take_hits [OF notP this] obtain k where "take n (?P @ OsCall purge_cmd # ?Q) =
        ?P @ OsCall purge_cmd # take k ?Q" ..
    then have eq: "pre @ [OsCall c] = ?P @ OsCall purge_cmd # take k ?Q"
      using n last by simp
    show False
    proof (cases "take k ?Q = []")
      case True
      then have "pre @ [OsCall c] = (?P @ [OsCall purge_cmd])" using eq by simp
      then have "OsCall c = OsCall purge_cmd" by (simp only: append1_eq_conv)
      then show False using c by simp
    next
      case False
      have "last (pre @ [OsCall c]) = last (take k ?Q)"
        unfolding eq using False by simp
      then have "OsCall c = last (take k ?Q)" by simp
      moreover have "last (take k ?Q) \<in> set (take k ?Q)"
        using False by (rule last_in_set)
      then have "last (take k ?Q) \<in> set ?Q"
        by (rule in_set_takeD)
      ultimately have "OsCall c \<in> set ?Q" by simp
      then show False by simp
    qed
  qed
  then have "OsCall purge_cmd \<notin> set (take n (?P @ OsCall purge_cmd # ?Q))"
    using n by simp
  then have "take n (?P @ OsCall purge_cmd # ?Q) = take n ?P"
    by (rule take_misses)
  with n have "fst ?r = take n ?P"
    by (rule trans)
  then have "prefix (fst ?r) ?P"
    by (simp only: take_is_prefix)
  then have "prefix (dropWhile (\<lambda>a. a \<noteq> Mkdir (WORKING_DIR e)) (fst ?r))
                    (dropWhile (\<lambda>a. a \<noteq> Mkdir (WORKING_DIR e)) ?P)"
    by (rule prefix_dropWhile)
  then have "set (dropWhile (\<lambda>a. a \<noteq> Mkdir (WORKING_DIR e)) (fst ?r)) \<subseteq>
             set (dropWhile (\<lambda>a. a \<noteq> Mkdir (WORKING_DIR e)) ?P)"
    by (rule set_mono_prefix)
  then show "Rmtree (WORKING_DIR e) \<notin>
           set (dropWhile (\<lambda>a. a \<noteq> Mkdir (WORKING_DIR e)) (fst ?r))"
    using before_purge_no_Rmtree [of e repo pkg ver a37 "'': Package-Builder is cleaning-up''"]
    by blast
qed

lemma purge_reached:
  assumes "OsCall purge_cmd \<in>
     set (fst (release e (PyStr repo) (PyStr pkg) (PyStr ver) (PyBool a37) (PyBool dry)))"
  shows "\<exists>k. fst (release e (PyStr repo) (PyStr pkg) (PyStr ver) (PyBool a37) (PyBool dry)) =
     (events_of (before_loop_steps e repo pkg ver a37) @
      events_of (loop_steps e pkg ver a37) @ [Print '': Package-Builder is cleaning-up'']) @
     OsCall purge_cmd #
     take k [Chdir (HOME_DIR e), Rmtree (WORKING_DIR e),
             Print ('': Package-Builder is finishing at '' @ asctime e 1)]"
proof -
  let ?r = "release e (PyStr repo) (PyStr pkg) (PyStr ver) (PyBool a37) (PyBool dry)"
  let ?P = "events_of (before_loop_steps e repo pkg ver a37) @
            events_of (loop_steps e pkg ver a37) @ [Print '': Package-Builder is cleaning-up'']"
  let ?Q = "[Chdir (HOME_DIR e), Rmtree (WORKING_DIR e),
            Print ('': Package-Builder is finishing at '' @ asctime e 1)]"
  from os_call_in_trace [OF assms] obtain n
    where n: "fst ?r = take n (?P @ OsCall purge_cmd # ?Q)" ..
  have notP: "OsCall purge_cmd \<notin> set ?P" by (rule purge_not_before)
  have "OsCall purge_cmd \<in> set (take n (?P @ OsCall purge_cmd # ?Q))"
    using assms n by simp
  from take_hits [OF notP this] obtain k where "take n (?P @ OsCall purge_cmd # ?Q) =
      ?P @ OsCall purge_cmd # take k ?Q" ..
  then show ?thesis using n by (intro exI [of _ k]) simp
qed

lemma purge_not_loop_command:
  "purge_cmd \<notin>
   set (git_clone_cmd ver repo #
        concat (map (\<lambda>v. os_calls (events_of (pyver_steps e pkg ver v)))
                  (python_versions a37)))"
proof -
  have "purge_cmd \<notin> set (os_calls (events_of (loop_steps e pkg ver a37)))"
    using loop_events_not_purge [of e pkg ver a37] by (simp add: in_os_calls)
  then show ?thesis
    using clone_neq_purge [of ver repo] by (simp add: os_calls_loop_steps)
qed

section \<open>The claims\<close>


text \<open>
  C3. For an interpreter version with one dot, the artifact file name is
  \<^verbatim>\<open><package>-<version>-py<interpreter without its dot>_0.tar.bz2\<close>. Every version the
  loop visits has one dot. For package \<^verbatim>\<open>taxcalc\<close>, version \<^verbatim>\<open>0.22.2\<close> and interpreter
  \<^verbatim>\<open>3.7\<close> the name is \<^verbatim>\<open>taxcalc-0.22.2-py37_0.tar.bz2\<close>.
\<close>

theorem pkgfile_name:
  "(count_list pyver (CHR ''.'') = 1 \<longrightarrow>
      pkgfile pkg_name version pyver =
        Inr (pkg_name @ ''-'' @ version @ ''-py'' @ filter (\<lambda>c. c \<noteq> CHR ''.'') pyver @
             ''_0.tar.bz2'')) \<and>
   (\<forall>v \<in> set (python_versions also37). count_list v (CHR ''.'') = 1) \<and>
   pkgfile ''taxcalc'' ''0.22.2'' ''3.7'' = Inr ''taxcalc-0.22.2-py37_0.tar.bz2''"
proof (intro conjI impI)
  assume "count_list pyver (CHR ''.'') = 1"
  then obtain a b where "split_sep (CHR ''.'') pyver = [a, b]"
    "a @ b = filter (\<lambda>x. x \<noteq> CHR ''.'') pyver"
    using split_sep_one_sep by blast
  then show "pkgfile pkg_name version pyver =
        Inr (pkg_name @ ''-'' @ version @ ''-py'' @ filter (\<lambda>c. c \<noteq> CHR ''.'') pyver @
             ''_0.tar.bz2'')"
    by (simp add: pkgfile_def pystr_def)
next
  show "\<forall>v \<in> set (python_versions also37). count_list v (CHR ''.'') = 1"
    by (simp add: python_versions_def BASE_PYTHON_VERSIONS_def)
next
  show "pkgfile ''taxcalc'' ''0.22.2'' ''3.7'' = Inr ''taxcalc-0.22.2-py37_0.tar.bz2''"
    by (simp add: pkgfile_def pystr_def)
qed

theorem pkgfile_name_witness:
  "count_list ''3.6'' (CHR ''.'') = 1 \<and> ''3.6'' \<in> set (python_versions False) \<and>
   pkgfile ''taxcalc'' ''0.22.2'' ''3.6'' = Inr ''taxcalc-0.22.2-py36_0.tar.bz2''"
  using pkgfile_name [of "''3.6''" "''taxcalc''" "''0.22.2''" False]
  by (simp add: python_versions_def BASE_PYTHON_VERSIONS_def)

text \<open>
  C1. The claim is that every version string that is not three dot-separated non-negative
  integers and nothing else is rejected before any side effect. The check of the code is
  \<^verbatim>\<open>re.match\<close> with a pattern that ends in \<^verbatim>\<open>$\<close>, which also accepts such a
  version followed by one newline. For the version \<^verbatim>\<open>1.2.3\<close> followed by a newline,
  which is not of the form X.Y.Z, the call passes the check, creates the working directory
  and runs \<^verbatim>\<open>git clone\<close> with the newline inside the branch name.
\<close>

theorem trailing_newline_accepted:
  "\<not> semver_xyz (''1.2.3'' @ [CHR 0x0A]) \<and>
   re_match_version (''1.2.3'' @ [CHR 0x0A]) \<and>
   snd (release env_ok (PyStr ''Tax-Calculator'') (PyStr ''taxcalc'')
          (PyStr (''1.2.3'' @ [CHR 0x0A])) (PyBool True) (PyBool False)) = Returned \<and>
   Mkdir ''/home/psl/temporary_pkgbld_working_dir'' \<in>
     set (fst (release env_ok (PyStr ''Tax-Calculator'') (PyStr ''taxcalc'')
            (PyStr (''1.2.3'' @ [CHR 0x0A])) (PyBool True) (PyBool False))) \<and>
   hd (os_calls (fst (release env_ok (PyStr ''Tax-Calculator'') (PyStr ''taxcalc'')
            (PyStr (''1.2.3'' @ [CHR 0x0A])) (PyBool True) (PyBool False)))) =
     ''git clone --branch 1.2.3'' @ [CHR 0x0A] @
     '' --depth 1 https://github.com/PSLmodels/Tax-Calculator/''"
proof (intro conjI)
  show "\<not> semver_xyz (''1.2.3'' @ [CHR 0x0A])"
    by (simp add: semver_xyz_def is_integer_def is_digit_def)
  show "re_match_version (''1.2.3'' @ [CHR 0x0A])"
    by (simp add: re_match_version_def version_pattern_def re_dollar_def is_digit_def)
  show "snd (release env_ok (PyStr ''Tax-Calculator'') (PyStr ''taxcalc'')
          (PyStr (''1.2.3'' @ [CHR 0x0A])) (PyBool True) (PyBool False)) = Returned"
    by code_simp
  show "Mkdir ''/home/psl/temporary_pkgbld_working_dir'' \<in>
     set (fst (release env_ok (PyStr ''Tax-Calculator'') (PyStr ''taxcalc'')
            (PyStr (''1.2.3'' @ [CHR 0x0A])) (PyBool True) (PyBool False)))"
    by code_simp
  show "hd (os_calls (fst (release env_ok (PyStr ''Tax-Calculator'') (PyStr ''taxcalc'')
            (PyStr (''1.2.3'' @ [CHR 0x0A])) (PyBool True) (PyBool False)))) =
     ''git clone --branch 1.2.3'' @ [CHR 0x0A] @
     '' --depth 1 https://github.com/PSLmodels/Tax-Calculator/''"
    by code_simp
qed

text \<open>
  C4. When the arguments pass every check, the token file exists and \<^verbatim>\<open>dryrun\<close> is
  true, the call queries the token file, prints the plan (repository, package, version,
  interpreter versions, channel, token-file path) and the quitting line, and returns; the
  trace has no filesystem call and no external command. No other call returns early: a
  call that returns without \<^verbatim>\<open>dryrun\<close> being true has run to its last statement, so
  its trace ends with the clean-up.
\<close>

theorem dryrun_plan_only:
  "(re_match_version ver \<and> isfile e (ANACONDA_TOKEN_FILE e) \<longrightarrow>
      release e (PyStr repo) (PyStr pkg) (PyStr ver) (PyBool a37) (PyBool True) =
        ([IsFile (ANACONDA_TOKEN_FILE e),
          Print '': Package-Builder will build model packages for:'',
          Print ('':   repository_name = '' @ repo),
          Print ('':   package_name = '' @ pkg),
          Print ('':   model_version = '' @ ver),
          Print ('':   python_versions = '' @ py_str_list (python_versions a37)),
          Print '': Package-Builder will upload model packages to:'',
          Print ('':   Anaconda channel = '' @ ANACONDA_CHANNEL),
          Print ('':   using token in file = '' @ ANACONDA_TOKEN_FILE e),
          Print '': Package-Builder is quitting''],
         Returned) \<and>
      filter fallible
        (fst (release e (PyStr repo) (PyStr pkg) (PyStr ver) (PyBool a37) (PyBool True))) = []) \<and>
   (snd (release e repo_name pkg_name version also37 dryrun) = Returned \<longrightarrow>
      dryrun = PyBool True \<or>
      suffix (events_of (cleanup_steps e))
        (fst (release e repo_name pkg_name version also37 dryrun)))"
proof (intro conjI impI)
  assume ok: "re_match_version ver \<and> isfile e (ANACONDA_TOKEN_FILE e)"
  then have r: "release e (PyStr repo) (PyStr pkg) (PyStr ver) (PyBool a37) (PyBool True) =
     (IsFile (ANACONDA_TOKEN_FILE e) # map Print (plan_lines e repo pkg ver a37) @
        [Print '': Package-Builder is quitting''],
      Returned)"
    by (simp add: release_dryrun)
  then show "release e (PyStr repo) (PyStr pkg) (PyStr ver) (PyBool a37) (PyBool True) =
        ([IsFile (ANACONDA_TOKEN_FILE e),
          Print '': Package-Builder will build model packages for:'',
          Print ('':   repository_name = '' @ repo),
          Print ('':   package_name = '' @ pkg),
          Print ('':   model_version = '' @ ver),
          Print ('':   python_versions = '' @ py_str_list (python_versions a37)),
          Print '': Package-Builder will upload model packages to:'',
          Print ('':   Anaconda channel = '' @ ANACONDA_CHANNEL),
          Print ('':   using token in file = '' @ ANACONDA_TOKEN_FILE e),
          Print '': Package-Builder is quitting''],
         Returned)"
    by (simp add: plan_lines_def)
  show "filter fallible
        (fst (release e (PyStr repo) (PyStr pkg) (PyStr ver) (PyBool a37) (PyBool True))) = []"
    by (simp add: r filter_empty_conv)
next
  let ?steps = "release_steps e repo_name pkg_name version also37 dryrun"
  let ?r = "release e repo_name pkg_name version also37 dryrun"
  assume ret: "snd ?r = Returned"
  then have "snd (run e [] ?steps) = Returned" by (simp add: release_def)
  from run_Returned [OF this]
  have tr: "fst ?r = events_of ?steps" and calls: "list_all is_call ?steps"
    by (simp_all add: release_def)
  from release_steps_cases [of e repo_name pkg_name version also37 dryrun]
  show "dryrun = PyBool True \<or> suffix (events_of (cleanup_steps e)) (fst ?r)"
  proof (elim disjE exE conjE)
    fix msg assume "?steps = [Raise (ValueError msg)]"
    with calls show ?thesis by simp
  next
    fix repo pkg v b d
    assume d: "dryrun = PyBool d"
      and st: "?steps = checked_steps e repo pkg v b d"
    show ?thesis
    proof (cases d)
      case True
      with d show ?thesis by simp
    next
      case False
      have tok: "isfile e (ANACONDA_TOKEN_FILE e)"
        using calls st checked_steps_not_Returned by metis
      have "fst ?r = events_of (checked_steps e repo pkg v b False)"
        using tr st False by simp
      then have "fst ?r =
          (events_of (before_loop_steps e repo pkg v b) @ events_of (loop_steps e pkg v b)) @
          events_of (cleanup_steps e)"
        using tok by (simp add: events_of_build)
      then show ?thesis
        by (metis suffixI)
    qed
  qed
qed

theorem dryrun_plan_only_witness:
  "re_match_version ''0.22.2'' \<and> isfile env_ok (ANACONDA_TOKEN_FILE env_ok) \<and>
   release env_ok (PyStr ''Tax-Calculator'') (PyStr ''taxcalc'') (PyStr ''0.22.2'')
       (PyBool True) (PyBool True) =
     ([IsFile ''/home/psl/.pslmodels_anaconda_token'',
       Print '': Package-Builder will build model packages for:'',
       Print '':   repository_name = Tax-Calculator'',
       Print '':   package_name = taxcalc'',
       Print '':   model_version = 0.22.2'',
       Print ('':   python_versions = ['' @ [CHR 0x27] @ ''3.6'' @ [CHR 0x27] @ '', '' @
              [CHR 0x27] @ ''3.7'' @ [CHR 0x27] @ '']''),
       Print '': Package-Builder will upload model packages to:'',
       Print '':   Anaconda channel = pslmodels'',
       Print '':   using token in file = /home/psl/.pslmodels_anaconda_token'',
       Print '': Package-Builder is quitting''],
      Returned)"
proof -
  have m: "re_match_version ''0.22.2''"
    by (simp add: re_match_version_def version_pattern_def re_dollar_def is_digit_def)
  have f: "isfile env_ok (ANACONDA_TOKEN_FILE env_ok)"
    by (simp add: env_ok_def)
  have t: "ANACONDA_TOKEN_FILE env_ok = ''/home/psl/.pslmodels_anaconda_token''"
    by (simp add: ANACONDA_TOKEN_FILE_def path_join_def ANACONDA_USER_def env_ok_def)
  have p: "py_str_list (python_versions True) =
      ''['' @ [CHR 0x27] @ ''3.6'' @ [CHR 0x27] @ '', '' @ [CHR 0x27] @ ''3.7'' @ [CHR 0x27] @ '']''"
    by (simp add: py_str_list_def python_versions_def BASE_PYTHON_VERSIONS_def py_repr_def)
  show ?thesis
    using m f dryrun_plan_only [of "''0.22.2''" env_ok "''Tax-Calculator''" "''taxcalc''" True]
    by (simp add: t p ANACONDA_CHANNEL_def ANACONDA_USER_def)
qed

text \<open>
  C5. When every call before the clone returns and the clone command fails, the call
  raises the failure of the clone and its trace ends with the clone command: no
  substitution has been made, the clone is the only external command, and after the
  creation of the working directory nothing removes it. In any call, a call that fails
  is the last event of the trace and the call raises its failure. When an external
  command other than the purge fails (the clone, a build, a conversion or an upload),
  the purge is not in the trace and nothing removes the working directory after its
  creation. When the purge command is in the trace, the events before it are the
  complete sequence up to and including the loop and the clean-up line, the external
  commands before it are the clone and the commands of every iteration, and every one of
  these calls returned.
\<close>

theorem clone_failure_stops:
  "(re_match_version ver \<and> isfile e (ANACONDA_TOKEN_FILE e) \<and>
    all_succeed e [] (before_clone_events e repo pkg ver a37) \<and>
    \<not> succeeds e (before_clone_events e repo pkg ver a37) (OsCall (git_clone_cmd ver repo))
    \<longrightarrow>
      release e (PyStr repo) (PyStr pkg) (PyStr ver) (PyBool a37) (PyBool False) =
        (before_clone_events e repo pkg ver a37 @ [OsCall (git_clone_cmd ver repo)],
         Raised (CallFailed (OsCall (git_clone_cmd ver repo)))) \<and>
      file_revisions
        (fst (release e (PyStr repo) (PyStr pkg) (PyStr ver) (PyBool a37) (PyBool False))) = [] \<and>
      os_calls
        (fst (release e (PyStr repo) (PyStr pkg) (PyStr ver) (PyBool a37) (PyBool False))) =
        [git_clone_cmd ver repo] \<and>
      dropWhile (\<lambda>a. a \<noteq> Mkdir (WORKING_DIR e))
        (fst (release e (PyStr repo) (PyStr pkg) (PyStr ver) (PyBool a37) (PyBool False))) =
        [Mkdir (WORKING_DIR e), Chdir (WORKING_DIR e),
         Print ('': Package-Builder is cloning repository code for '' @ ver),
         OsCall (git_clone_cmd ver repo)]) \<and>
   (fst (release e (PyStr repo) (PyStr pkg) (PyStr ver) (PyBool a37) (PyBool dry)) =
      pre @ a # post \<and> fallible a \<and> \<not> succeeds e pre a \<longrightarrow>
      post = [] \<and>
      snd (release e (PyStr repo) (PyStr pkg) (PyStr ver) (PyBool a37) (PyBool dry)) =
        Raised (CallFailed a)) \<and>
   (fst (release e (PyStr repo) (PyStr pkg) (PyStr ver) (PyBool a37) (PyBool dry)) =
      pre @ OsCall c # post \<and> \<not> succeeds e pre (OsCall c) \<and> c \<noteq> purge_cmd \<longrightarrow>
      OsCall purge_cmd \<notin>
        set (fst (release e (PyStr repo) (PyStr pkg) (PyStr ver) (PyBool a37) (PyBool dry))) \<and>
      Rmtree (WORKING_DIR e) \<notin>
        set (dropWhile (\<lambda>a. a \<noteq> Mkdir (WORKING_DIR e))
               (fst (release e (PyStr repo) (PyStr pkg) (PyStr ver) (PyBool a37)
                       (PyBool dry))))) \<and>
   purge_cmd \<notin>
     set (git_clone_cmd ver repo #
          concat (map (\<lambda>v. os_calls (events_of (pyver_steps e pkg ver v)))
                    (python_versions a37))) \<and>
   (OsCall purge_cmd \<in>
      set (fst (release e (PyStr repo) (PyStr pkg) (PyStr ver) (PyBool a37) (PyBool dry))) \<longrightarrow>
      takeWhile (\<lambda>a. a \<noteq> OsCall purge_cmd)
        (fst (release e (PyStr repo) (PyStr pkg) (PyStr ver) (PyBool a37) (PyBool dry))) =
        events_of (before_loop_steps e repo pkg ver a37) @
        events_of (loop_steps e pkg ver a37) @ [Print '': Package-Builder is cleaning-up''] \<and>
      os_calls (takeWhile (\<lambda>a. a \<noteq> OsCall purge_cmd)
        (fst (release e (PyStr repo) (PyStr pkg) (PyStr ver) (PyBool a37) (PyBool dry)))) =
        git_clone_cmd ver repo #
        concat (map (\<lambda>v. os_calls (events_of (pyver_steps e pkg ver v)))
                  (python_versions a37)) \<and>
      all_succeed e []
        (events_of (before_loop_steps e repo pkg ver a37) @
         events_of (loop_steps e pkg ver a37) @ [Print '': Package-Builder is cleaning-up'']))"
proof (intro conjI impI)
  let ?r = "release e (PyStr repo) (PyStr pkg) (PyStr ver) (PyBool a37) (PyBool False)"
  let ?clone = "OsCall (git_clone_cmd ver repo)"
  assume "re_match_version ver \<and> isfile e (ANACONDA_TOKEN_FILE e) \<and>
    all_succeed e [] (before_clone_events e repo pkg ver a37) \<and>
    \<not> succeeds e (before_clone_events e repo pkg ver a37) ?clone"
  then have h: "re_match_version ver" "isfile e (ANACONDA_TOKEN_FILE e)"
    "all_succeed e [] (before_clone_events e repo pkg ver a37)"
    "\<not> succeeds e (before_clone_events e repo pkg ver a37) ?clone"
    by simp_all
  from clone_fails [OF h]
  show r: "?r = (before_clone_events e repo pkg ver a37 @ [?clone], Raised (CallFailed ?clone))" .
  then have tr: "fst ?r = before_clone_events e repo pkg ver a37 @ [?clone]"
    by simp
  show "file_revisions (fst ?r) = []"
    unfolding tr by (rule before_clone_events_facts(1))
  show "os_calls (fst ?r) = [git_clone_cmd ver repo]"
    unfolding tr by (rule before_clone_events_facts(2))
  show "dropWhile (\<lambda>a. a \<noteq> Mkdir (WORKING_DIR e)) (fst ?r) =
        [Mkdir (WORKING_DIR e), Chdir (WORKING_DIR e),
         Print ('': Package-Builder is cloning repository code for '' @ ver), ?clone]"
    unfolding tr by (rule before_clone_events_facts(3))
next
  let ?r = "release e (PyStr repo) (PyStr pkg) (PyStr ver) (PyBool a37) (PyBool dry)"
  assume "fst ?r = pre @ a # post \<and> fallible a \<and> \<not> succeeds e pre a"
  then have h: "fst ?r = pre @ a # post" "fallible a" "\<not> succeeds e pre a"
    by simp_all
  have "fst (run e [] (release_steps e (PyStr repo) (PyStr pkg) (PyStr ver) (PyBool a37)
          (PyBool dry))) = [] @ pre @ a # post"
    using h(1) by (simp add: release_def)
  moreover have "\<not> succeeds e ([] @ pre) a" using h(3) by simp
  ultimately have
    "post = [] \<and>
     snd (run e [] (release_steps e (PyStr repo) (PyStr pkg) (PyStr ver) (PyBool a37)
            (PyBool dry))) = Raised (CallFailed a)"
    using h(2) by (intro run_failed_last)
  then show "post = []" and "snd ?r = Raised (CallFailed a)"
    by (simp_all add: release_def)
next
  let ?r = "release e (PyStr repo) (PyStr pkg) (PyStr ver) (PyBool a37) (PyBool dry)"
  assume "fst ?r = pre @ OsCall c # post \<and> \<not> succeeds e pre (OsCall c) \<and> c \<noteq> purge_cmd"
  then have h: "fst ?r = pre @ OsCall c # post" "\<not> succeeds e pre (OsCall c)" "c \<noteq> purge_cmd"
    by simp_all
  from failed_command_no_cleanup(1) [OF h]
  show "OsCall purge_cmd \<notin> set (fst ?r)" .
  from failed_command_no_cleanup(2) [OF h]
  show "Rmtree (WORKING_DIR e) \<notin>
        set (dropWhile (\<lambda>a. a \<noteq> Mkdir (WORKING_DIR e)) (fst ?r))" .
next
  show "purge_cmd \<notin>
     set (git_clone_cmd ver repo #
          concat (map (\<lambda>v. os_calls (events_of (pyver_steps e pkg ver v)))
                    (python_versions a37)))"
    by (rule purge_not_loop_command)
next
  let ?r = "release e (PyStr repo) (PyStr pkg) (PyStr ver) (PyBool a37) (PyBool dry)"
  let ?P = "events_of (before_loop_steps e repo pkg ver a37) @
            events_of (loop_steps e pkg ver a37) @ [Print '': Package-Builder is cleaning-up'']"
  let ?Q = "[Chdir (HOME_DIR e), Rmtree (WORKING_DIR e),
            Print ('': Package-Builder is finishing at '' @ asctime e 1)]"
  assume "OsCall purge_cmd \<in> set (fst ?r)"
  from purge_reached [OF this] obtain k
    where k: "fst ?r = ?P @ OsCall purge_cmd # take k ?Q" ..
  have notP: "OsCall purge_cmd \<notin> set ?P" by (rule purge_not_before)
  have "takeWhile (\<lambda>a. a \<noteq> OsCall purge_cmd) (?P @ OsCall purge_cmd # take k ?Q) =
        ?P @ takeWhile (\<lambda>a. a \<noteq> OsCall purge_cmd) (OsCall purge_cmd # take k ?Q)"
    using notP by (intro takeWhile_append2) auto
  then show tw: "takeWhile (\<lambda>a. a \<noteq> OsCall purge_cmd) (fst ?r) = ?P"
    by (simp only: k) simp
  show "os_calls (takeWhile (\<lambda>a. a \<noteq> OsCall purge_cmd) (fst ?r)) =
        git_clone_cmd ver repo #
        concat (map (\<lambda>v. os_calls (events_of (pyver_steps e pkg ver v)))
                  (python_versions a37))"
    by (simp add: tw os_calls_append os_calls_before_loop os_calls_loop_steps)
  have "fst (run e [] (release_steps e (PyStr repo) (PyStr pkg) (PyStr ver) (PyBool a37)
          (PyBool dry))) = [] @ ?P @ OsCall purge_cmd # take k ?Q"
    using k by (simp add: release_def)
  then show "all_succeed e [] ?P"
    by (rule run_prefix_succeed)
qed

theorem clone_failure_stops_witness:
  "all_succeed env_noclone []
     (before_clone_events env_noclone ''Tax-Calculator'' ''taxcalc'' ''0.22.2'' True) \<and>
   \<not> succeeds env_noclone
       (before_clone_events env_noclone ''Tax-Calculator'' ''taxcalc'' ''0.22.2'' True)
       (OsCall (git_clone_cmd ''0.22.2'' ''Tax-Calculator'')) \<and>
   snd (release env_noclone (PyStr ''Tax-Calculator'') (PyStr ''taxcalc'') (PyStr ''0.22.2'')
          (PyBool True) (PyBool False)) =
     Raised (CallFailed (OsCall (git_clone_cmd ''0.22.2'' ''Tax-Calculator''))) \<and>
   os_calls (fst (release env_noclone (PyStr ''Tax-Calculator'') (PyStr ''taxcalc'')
          (PyStr ''0.22.2'') (PyBool True) (PyBool False))) =
     [git_clone_cmd ''0.22.2'' ''Tax-Calculator''] \<and>
   \<not> succeeds env_nobuild37
       (butlast (fst (release env_nobuild37 (PyStr ''Tax-Calculator'') (PyStr ''taxcalc'')
          (PyStr ''0.22.2'') (PyBool True) (PyBool False))))
       (OsCall (conda_build_cmd ''3.7'')) \<and>
   last (fst (release env_nobuild37 (PyStr ''Tax-Calculator'') (PyStr ''taxcalc'')
          (PyStr ''0.22.2'') (PyBool True) (PyBool False))) = OsCall (conda_build_cmd ''3.7'') \<and>
   length (os_calls (fst (release env_nobuild37 (PyStr ''Tax-Calculator'') (PyStr ''taxcalc'')
          (PyStr ''0.22.2'') (PyBool True) (PyBool False)))) = 10 \<and>
   OsCall purge_cmd \<notin> set (fst (release env_nobuild37 (PyStr ''Tax-Calculator'')
          (PyStr ''taxcalc'') (PyStr ''0.22.2'') (PyBool True) (PyBool False))) \<and>
   Rmtree (WORKING_DIR env_nobuild37) \<notin>
     set (dropWhile (\<lambda>a. a \<noteq> Mkdir (WORKING_DIR env_nobuild37))
            (fst (release env_nobuild37 (PyStr ''Tax-Calculator'') (PyStr ''taxcalc'')
               (PyStr ''0.22.2'') (PyBool True) (PyBool False)))) \<and>
   OsCall purge_cmd \<in> set (fst (release env_ok (PyStr ''Tax-Calculator'') (PyStr ''taxcalc'')
          (PyStr ''0.22.2'') (PyBool True) (PyBool False))) \<and>
   all_succeed env_ok []
     (events_of (before_loop_steps env_ok ''Tax-Calculator'' ''taxcalc'' ''0.22.2'' True) @
      events_of (loop_steps env_ok ''taxcalc'' ''0.22.2'' True) @
      [Print '': Package-Builder is cleaning-up''])"
proof -
  let ?rc = "release env_noclone (PyStr ''Tax-Calculator'') (PyStr ''taxcalc'')
               (PyStr ''0.22.2'') (PyBool True) (PyBool False)"
  let ?rb = "release env_nobuild37 (PyStr ''Tax-Calculator'') (PyStr ''taxcalc'')
               (PyStr ''0.22.2'') (PyBool True) (PyBool False)"
  let ?ro = "release env_ok (PyStr ''Tax-Calculator'') (PyStr ''taxcalc'')
               (PyStr ''0.22.2'') (PyBool True) (PyBool False)"
  have m: "re_match_version ''0.22.2''"
    by (simp add: re_match_version_def version_pattern_def re_dollar_def is_digit_def)
  have f: "isfile env_noclone (ANACONDA_TOKEN_FILE env_noclone)"
    by (simp add: env_noclone_def env_ok_def)
  have s: "all_succeed env_noclone []
     (before_clone_events env_noclone ''Tax-Calculator'' ''taxcalc'' ''0.22.2'' True)"
    by code_simp
  have n: "\<not> succeeds env_noclone
       (before_clone_events env_noclone ''Tax-Calculator'' ''taxcalc'' ''0.22.2'' True)
       (OsCall (git_clone_cmd ''0.22.2'' ''Tax-Calculator''))"
    by (simp add: env_noclone_def git_clone_cmd_def)
  have h1: "re_match_version ''0.22.2'' \<and> isfile env_noclone (ANACONDA_TOKEN_FILE env_noclone) \<and>
    all_succeed env_noclone []
      (before_clone_events env_noclone ''Tax-Calculator'' ''taxcalc'' ''0.22.2'' True) \<and>
    \<not> succeeds env_noclone
       (before_clone_events env_noclone ''Tax-Calculator'' ''taxcalc'' ''0.22.2'' True)
       (OsCall (git_clone_cmd ''0.22.2'' ''Tax-Calculator''))"
    using m f s n by (intro conjI)
  note a = clone_failure_stops [where e = env_noclone and repo = "''Tax-Calculator''"
      and pkg = "''taxcalc''" and ver = "''0.22.2''" and ?a37.0 = True,
      THEN conjunct1, THEN mp, OF h1]
  from a have a1: "?rc =
      (before_clone_events env_noclone ''Tax-Calculator'' ''taxcalc'' ''0.22.2'' True @
         [OsCall (git_clone_cmd ''0.22.2'' ''Tax-Calculator'')],
       Raised (CallFailed (OsCall (git_clone_cmd ''0.22.2'' ''Tax-Calculator''))))"
    by (elim conjE)
  then have a1': "snd ?rc =
       Raised (CallFailed (OsCall (git_clone_cmd ''0.22.2'' ''Tax-Calculator'')))"
    by simp
  from a have a3: "os_calls (fst ?rc) = [git_clone_cmd ''0.22.2'' ''Tax-Calculator'']"
    by (elim conjE)
  have b1: "fst ?rb = butlast (fst ?rb) @ OsCall (conda_build_cmd ''3.7'') # []"
    by code_simp
  have b2: "\<not> succeeds env_nobuild37 (butlast (fst ?rb)) (OsCall (conda_build_cmd ''3.7''))"
    by (simp add: env_nobuild37_def)
  have b3: "conda_build_cmd ''3.7'' \<noteq> purge_cmd"
    by (rule build_neq_purge)
  have h3: "fst ?rb = butlast (fst ?rb) @ OsCall (conda_build_cmd ''3.7'') # [] \<and>
     \<not> succeeds env_nobuild37 (butlast (fst ?rb)) (OsCall (conda_build_cmd ''3.7'')) \<and>
     conda_build_cmd ''3.7'' \<noteq> purge_cmd"
    using b1 b2 b3 by (intro conjI)
  note b = clone_failure_stops [where e = env_nobuild37 and repo = "''Tax-Calculator''"
      and pkg = "''taxcalc''" and ver = "''0.22.2''" and ?a37.0 = True and dry = False
      and pre = "butlast (fst ?rb)" and c = "conda_build_cmd ''3.7''" and post = "[]",
      THEN conjunct2, THEN conjunct2, THEN conjunct1, THEN mp, OF h3]
  from b have b4: "OsCall purge_cmd \<notin> set (fst ?rb)"
    by (elim conjE)
  from b have b5: "Rmtree (WORKING_DIR env_nobuild37) \<notin>
     set (dropWhile (\<lambda>a. a \<noteq> Mkdir (WORKING_DIR env_nobuild37)) (fst ?rb))"
    by (elim conjE)
  have b6: "last (fst ?rb) = OsCall (conda_build_cmd ''3.7'')"
    by code_simp
  have b7: "length (os_calls (fst ?rb)) = 10"
    by code_simp
  have p: "OsCall purge_cmd \<in> set (fst ?ro)"
    by code_simp
  note d = clone_failure_stops [where e = env_ok and repo = "''Tax-Calculator''"
      and pkg = "''taxcalc''" and ver = "''0.22.2''" and ?a37.0 = True and dry = False,
      THEN conjunct2, THEN conjunct2, THEN conjunct2, THEN conjunct2, THEN mp, OF p]
  from d have d3: "all_succeed env_ok []
     (events_of (before_loop_steps env_ok ''Tax-Calculator'' ''taxcalc'' ''0.22.2'' True) @
      events_of (loop_steps env_ok ''taxcalc'' ''0.22.2'' True) @
      [Print '': Package-Builder is cleaning-up''])"
    by (elim conjE)
  show ?thesis
    using s n a1' a3 b2 b6 b7 b4 b5 p d3 by (intro conjI)
qed

text \<open>
  C6. The in-place substitutions of a call are, in order, a prefix of three: the recipe
  file \<^verbatim>\<open>conda.recipe/meta.yaml\<close> with pattern \<^verbatim>\<open>version: .*\<close> and replacement
  \<^verbatim>\<open>version: <version>\<close>, the file \<^verbatim>\<open>setup.py\<close> with pattern \<^verbatim>\<open>version = .*\<close>
  and replacement \<^verbatim>\<open>version = "<version>"\<close>, and the \<^verbatim>\<open>__init__.py\<close> file joined to
  the package name with pattern \<^verbatim>\<open>__version__ = .*\<close> and replacement
  \<^verbatim>\<open>__version__ = "<version>"\<close>. A call that returns without \<^verbatim>\<open>dryrun\<close> has made
  exactly these three and no other.
\<close>

theorem stamping_three_files:
  "prefix
     (file_revisions
        (fst (release e (PyStr repo) (PyStr pkg) (PyStr ver) (PyBool a37) (PyBool dry))))
     [FileRevision ''conda.recipe/meta.yaml'' ''version: .*'' (''version: '' @ ver),
      FileRevision ''setup.py'' ''version = .*''
        (''version = '' @ [CHR 0x22] @ ver @ [CHR 0x22]),
      FileRevision (path_join pkg ''__init__.py'') ''__version__ = .*''
        (''__version__ = '' @ [CHR 0x22] @ ver @ [CHR 0x22])] \<and>
   (snd (release e (PyStr repo) (PyStr pkg) (PyStr ver) (PyBool a37) (PyBool False)) = Returned
    \<longrightarrow>
      file_revisions
        (fst (release e (PyStr repo) (PyStr pkg) (PyStr ver) (PyBool a37) (PyBool False))) =
      [FileRevision ''conda.recipe/meta.yaml'' ''version: .*'' (''version: '' @ ver),
       FileRevision ''setup.py'' ''version = .*''
         (''version = '' @ [CHR 0x22] @ ver @ [CHR 0x22]),
       FileRevision (path_join pkg ''__init__.py'') ''__version__ = .*''
         (''__version__ = '' @ [CHR 0x22] @ ver @ [CHR 0x22])])"
proof (intro conjI impI)
  let ?three = "[FileRevision ''conda.recipe/meta.yaml'' ''version: .*'' (''version: '' @ ver),
      FileRevision ''setup.py'' ''version = .*''
        (''version = '' @ [CHR 0x22] @ ver @ [CHR 0x22]),
      FileRevision (path_join pkg ''__init__.py'') ''__version__ = .*''
        (''__version__ = '' @ [CHR 0x22] @ ver @ [CHR 0x22])]"
  have meta: "path_join ''conda.recipe'' ''meta.yaml'' = ''conda.recipe/meta.yaml''"
    by (simp add: path_join_def)
  have before: "file_revisions (events_of (before_loop_steps e repo pkg ver a37)) = ?three"
    by (simp only: file_revisions_before_loop meta)
  have cleanup: "file_revisions (events_of (cleanup_steps e)) = []"
    by (simp add: events_of_cleanup file_revisions_def)
  have build: "file_revisions
      (events_of (before_loop_steps e repo pkg ver a37) @
       events_of (loop_steps e pkg ver a37) @ events_of (cleanup_steps e)) = ?three"
    by (simp only: file_revisions_append before file_revisions_loop_steps cleanup append_Nil2)
  {
    let ?steps = "release_steps e (PyStr repo) (PyStr pkg) (PyStr ver) (PyBool a37) (PyBool dry)"
    let ?tr = "fst (release e (PyStr repo) (PyStr pkg) (PyStr ver) (PyBool a37) (PyBool dry))"
    obtain n where n: "?tr = take n (events_of ?steps)"
      using release_trace by blast
    have all: "prefix (file_revisions (events_of ?steps)) ?three"
    proof (cases "re_match_version ver")
      case False
      then show ?thesis by (simp add: release_steps_typed file_revisions_def)
    next
      case m: True
      show ?thesis
      proof (cases "isfile e (ANACONDA_TOKEN_FILE e)")
        case False
        then show ?thesis
          using m by (simp add: release_steps_typed events_of_checked_other file_revisions_def)
      next
        case tok: True
        show ?thesis
        proof (cases dry)
          case True
          then have "file_revisions (events_of ?steps) = []"
            using m tok
            by (simp add: release_steps_typed events_of_checked_other file_revisions_append
                  file_revisions_map_Print)
               (simp add: file_revisions_def)
          then show ?thesis by simp
        next
          case False
          then have "file_revisions (events_of ?steps) = ?three"
            using m tok build by (simp only: release_steps_typed events_of_build if_False simp_thms)
          then show ?thesis by simp
        qed
      qed
    qed
    have "prefix (file_revisions ?tr) (file_revisions (events_of ?steps))"
      unfolding n by (rule file_revisions_take)
    then show "prefix (file_revisions ?tr) ?three"
      using all by (rule prefix_order.trans)
  }
  assume "snd (release e (PyStr repo) (PyStr pkg) (PyStr ver) (PyBool a37) (PyBool False)) =
          Returned"
  then have "fst (release e (PyStr repo) (PyStr pkg) (PyStr ver) (PyBool a37) (PyBool False)) =
         events_of (before_loop_steps e repo pkg ver a37) @
         events_of (loop_steps e pkg ver a37) @ events_of (cleanup_steps e)"
    by (rule release_Returned(3))
  then show "file_revisions
        (fst (release e (PyStr repo) (PyStr pkg) (PyStr ver) (PyBool a37) (PyBool False))) =
      ?three"
    using build by simp
qed

theorem stamping_three_files_witness:
  "snd (release env_ok (PyStr ''Tax-Calculator'') (PyStr ''taxcalc'') (PyStr ''0.22.2'')
          (PyBool True) (PyBool False)) = Returned \<and>
   file_revisions
     (fst (release env_ok (PyStr ''Tax-Calculator'') (PyStr ''taxcalc'') (PyStr ''0.22.2'')
             (PyBool True) (PyBool False))) =
   [FileRevision ''conda.recipe/meta.yaml'' ''version: .*'' ''version: 0.22.2'',
    FileRevision ''setup.py'' ''version = .*'' (''version = '' @ [CHR 0x22] @ ''0.22.2'' @ [CHR 0x22]),
    FileRevision ''taxcalc/__init__.py'' ''__version__ = .*''
      (''__version__ = '' @ [CHR 0x22] @ ''0.22.2'' @ [CHR 0x22])]"
proof -
  have r: "snd (release env_ok (PyStr ''Tax-Calculator'') (PyStr ''taxcalc'') (PyStr ''0.22.2'')
          (PyBool True) (PyBool False)) = Returned"
    by code_simp
  have p: "path_join ''taxcalc'' ''__init__.py'' = ''taxcalc/__init__.py''"
    by (simp add: path_join_def)
  show ?thesis
    using r stamping_three_files [of env_ok "''Tax-Calculator''" "''taxcalc''" "''0.22.2''"
        True False]
    by (simp add: p)
qed



text \<open>
  C8. When an argument has the wrong type or the token file is absent, the call raises a
  \<^verbatim>\<open>ValueError\<close> whose message names a condition that is violated, and the trace
  holds at most the query of the token file: no console line, no filesystem change and no
  external command. With well-typed arguments, a version that matches the pattern and no
  token file, the error is the token-file error.
\<close>

theorem precondition_errors:
  "(\<not> isinstance_str repo_name \<or> \<not> isinstance_str pkg_name \<or> \<not> isinstance_str version \<or>
    \<not> isinstance_bool also37 \<or> \<not> isinstance_bool dryrun \<or>
    \<not> isfile e (ANACONDA_TOKEN_FILE e) \<longrightarrow>
      (\<exists>msg. snd (release e repo_name pkg_name version also37 dryrun) = Raised (ValueError msg) \<and>
         (msg = ''repo_name is not a string object'' \<and> \<not> isinstance_str repo_name \<or>
          msg = ''pkg_name is not a string object'' \<and> \<not> isinstance_str pkg_name \<or>
          msg = ''version is not a string object'' \<and> \<not> isinstance_str version \<or>
          msg = ''also37 is not a boolean object'' \<and> \<not> isinstance_bool also37 \<or>
          msg = ''dryrun is not a boolean object'' \<and> \<not> isinstance_bool dryrun \<or>
          (\<exists>ver. version = PyStr ver \<and> \<not> re_match_version ver \<and>
             msg = ''version='' @ ver @ '' does not have X.Y.Z semantic-versioning pattern'') \<or>
          msg = ''Anaconda token file '' @ ANACONDA_TOKEN_FILE e @ '' does not exist'' \<and>
            \<not> isfile e (ANACONDA_TOKEN_FILE e))) \<and>
      (fst (release e repo_name pkg_name version also37 dryrun) = [] \<or>
       fst (release e repo_name pkg_name version also37 dryrun) =
         [IsFile (ANACONDA_TOKEN_FILE e)])) \<and>
   (re_match_version ver \<and> \<not> isfile e (ANACONDA_TOKEN_FILE e) \<longrightarrow>
      release e (PyStr repo) (PyStr pkg) (PyStr ver) (PyBool a37) (PyBool dry) =
        ([IsFile (ANACONDA_TOKEN_FILE e)],
         Raised (ValueError (''Anaconda token file '' @ ANACONDA_TOKEN_FILE e @
                             '' does not exist''))))"
proof (intro conjI impI)
  assume bad: "\<not> isinstance_str repo_name \<or> \<not> isinstance_str pkg_name \<or>
    \<not> isinstance_str version \<or> \<not> isinstance_bool also37 \<or> \<not> isinstance_bool dryrun \<or>
    \<not> isfile e (ANACONDA_TOKEN_FILE e)"
  let ?r = "release e repo_name pkg_name version also37 dryrun"
  let ?goal = "\<lambda>msg. msg = ''repo_name is not a string object'' \<and> \<not> isinstance_str repo_name \<or>
          msg = ''pkg_name is not a string object'' \<and> \<not> isinstance_str pkg_name \<or>
          msg = ''version is not a string object'' \<and> \<not> isinstance_str version \<or>
          msg = ''also37 is not a boolean object'' \<and> \<not> isinstance_bool also37 \<or>
          msg = ''dryrun is not a boolean object'' \<and> \<not> isinstance_bool dryrun \<or>
          (\<exists>ver. version = PyStr ver \<and> \<not> re_match_version ver \<and>
             msg = ''version='' @ ver @ '' does not have X.Y.Z semantic-versioning pattern'') \<or>
          msg = ''Anaconda token file '' @ ANACONDA_TOKEN_FILE e @ '' does not exist'' \<and>
            \<not> isfile e (ANACONDA_TOKEN_FILE e)"
  have "\<exists>msg. (?r = ([], Raised (ValueError msg)) \<or>
               ?r = ([IsFile (ANACONDA_TOKEN_FILE e)], Raised (ValueError msg))) \<and> ?goal msg"
  proof -
    consider (repo) "\<not> isinstance_str repo_name"
      | (pkg) "isinstance_str repo_name" "\<not> isinstance_str pkg_name"
      | (ver) "isinstance_str repo_name" "isinstance_str pkg_name" "\<not> isinstance_str version"
      | (a37) "isinstance_str repo_name" "isinstance_str pkg_name" "isinstance_str version"
          "\<not> isinstance_bool also37"
      | (dry) "isinstance_str repo_name" "isinstance_str pkg_name" "isinstance_str version"
          "isinstance_bool also37" "\<not> isinstance_bool dryrun"
      | (typed) "isinstance_str repo_name" "isinstance_str pkg_name" "isinstance_str version"
          "isinstance_bool also37" "isinstance_bool dryrun"
      by blast
    then show ?thesis
    proof cases
      case repo
      then have "?r = ([], Raised (ValueError ''repo_name is not a string object''))"
        by (simp add: release_raises_ValueError release_steps_repo_name)
      with repo show ?thesis
        by (intro exI [of _ "''repo_name is not a string object''"]) simp
    next
      case pkg
      then have "?r = ([], Raised (ValueError ''pkg_name is not a string object''))"
        by (simp add: release_raises_ValueError release_steps_pkg_name)
      with pkg show ?thesis
        by (intro exI [of _ "''pkg_name is not a string object''"]) simp
    next
      case ver
      then have "?r = ([], Raised (ValueError ''version is not a string object''))"
        by (simp add: release_raises_ValueError release_steps_version)
      with ver show ?thesis
        by (intro exI [of _ "''version is not a string object''"]) simp
    next
      case a37
      then have "?r = ([], Raised (ValueError ''also37 is not a boolean object''))"
        by (simp add: release_raises_ValueError release_steps_also37)
      with a37 show ?thesis
        by (intro exI [of _ "''also37 is not a boolean object''"]) simp
    next
      case dry
      then have "?r = ([], Raised (ValueError ''dryrun is not a boolean object''))"
        by (simp add: release_raises_ValueError release_steps_dryrun)
      with dry show ?thesis
        by (intro exI [of _ "''dryrun is not a boolean object''"]) simp
    next
      case typed
      then obtain repo pkg v b d where args:
        "repo_name = PyStr repo" "pkg_name = PyStr pkg" "version = PyStr v"
        "also37 = PyBool b" "dryrun = PyBool d"
        by (auto simp: isinstance_str_iff isinstance_bool_iff)
      show ?thesis
      proof (cases "re_match_version v")
        case False
        then have "?r = ([], Raised (ValueError (''version='' @ v @
                     '' does not have X.Y.Z semantic-versioning pattern'')))"
          unfolding args by (rule release_pattern)
        with False args(3) show ?thesis
          by (intro exI [of _ "''version='' @ v @
                     '' does not have X.Y.Z semantic-versioning pattern''"]) simp
      next
        case True
        have nofile: "\<not> isfile e (ANACONDA_TOKEN_FILE e)"
          using bad typed by blast
        with True have "?r = ([IsFile (ANACONDA_TOKEN_FILE e)],
           Raised (ValueError (''Anaconda token file '' @ ANACONDA_TOKEN_FILE e @
                               '' does not exist'')))"
          unfolding args by (rule release_token)
        with nofile show ?thesis
          by (intro exI [of _ "''Anaconda token file '' @ ANACONDA_TOKEN_FILE e @
                               '' does not exist''"]) simp
      qed
    qed
  qed
  then obtain msg where
    rg: "(?r = ([], Raised (ValueError msg)) \<or>
         ?r = ([IsFile (ANACONDA_TOKEN_FILE e)], Raised (ValueError msg))) \<and> ?goal msg" ..
  from rg have r: "?r = ([], Raised (ValueError msg)) \<or>
        ?r = ([IsFile (ANACONDA_TOKEN_FILE e)], Raised (ValueError msg))"
    by (rule conjunct1)
  from rg have g: "?goal msg"
    by (rule conjunct2)
  from r have "snd ?r = Raised (ValueError msg)"
    by (rule disjE) simp_all
  with g show "\<exists>msg. snd ?r = Raised (ValueError msg) \<and> ?goal msg"
    by (intro exI [of _ msg] conjI)
  from r show "fst ?r = [] \<or> fst ?r = [IsFile (ANACONDA_TOKEN_FILE e)]"
    by (rule disjE) simp_all
next
  assume "re_match_version ver \<and> \<not> isfile e (ANACONDA_TOKEN_FILE e)"
  then show "release e (PyStr repo) (PyStr pkg) (PyStr ver) (PyBool a37) (PyBool dry) =
        ([IsFile (ANACONDA_TOKEN_FILE e)],
         Raised (ValueError (''Anaconda token file '' @ ANACONDA_TOKEN_FILE e @
                             '' does not exist'')))"
    by (simp add: release_token)
qed

theorem precondition_errors_witness:
  "re_match_version ''0.22.2'' \<and> \<not> isfile env_notoken (ANACONDA_TOKEN_FILE env_notoken) \<and>
   release env_notoken (PyStr ''Tax-Calculator'') (PyStr ''taxcalc'') (PyStr ''0.22.2'')
       (PyBool True) (PyBool False) =
     ([IsFile ''/home/psl/.pslmodels_anaconda_token''],
      Raised (ValueError
        ''Anaconda token file /home/psl/.pslmodels_anaconda_token does not exist''))"
proof -
  have m: "re_match_version ''0.22.2''"
    by (simp add: re_match_version_def version_pattern_def re_dollar_def is_digit_def)
  have f: "\<not> isfile env_notoken (ANACONDA_TOKEN_FILE env_notoken)"
    by (simp add: env_notoken_def env_ok_def)
  have t: "ANACONDA_TOKEN_FILE env_notoken = ''/home/psl/.pslmodels_anaconda_token''"
    by (simp add: ANACONDA_TOKEN_FILE_def path_join_def ANACONDA_USER_def env_notoken_def
          env_ok_def)
  show ?thesis
    using m f precondition_errors [of "PyStr ''Tax-Calculator''" "PyStr ''taxcalc''"
        "PyStr ''0.22.2''" "PyBool True" "PyBool False" env_notoken "''0.22.2''"
        "''Tax-Calculator''" "''taxcalc''" True False]
    by (simp add: t)
qed

text \<open>
  C9. The checks run in the order repository-name type, package-name type, version type,
  \<^verbatim>\<open>also37\<close> type, \<^verbatim>\<open>dryrun\<close> type, version pattern, token file. The error
  raised is that of the first check that fails, whatever the later arguments are, and
  nothing has been done before it is raised (the token-file error follows the one query of
  the file). A version that is not a string never yields the pattern error.
\<close>

theorem check_order:
  "(\<not> isinstance_str repo_name \<longrightarrow>
      release e repo_name pkg_name version also37 dryrun =
        ([], Raised (ValueError ''repo_name is not a string object''))) \<and>
   (isinstance_str repo_name \<and> \<not> isinstance_str pkg_name \<longrightarrow>
      release e repo_name pkg_name version also37 dryrun =
        ([], Raised (ValueError ''pkg_name is not a string object''))) \<and>
   (isinstance_str repo_name \<and> isinstance_str pkg_name \<and> \<not> isinstance_str version \<longrightarrow>
      release e repo_name pkg_name version also37 dryrun =
        ([], Raised (ValueError ''version is not a string object''))) \<and>
   (isinstance_str repo_name \<and> isinstance_str pkg_name \<and> isinstance_str version \<and>
    \<not> isinstance_bool also37 \<longrightarrow>
      release e repo_name pkg_name version also37 dryrun =
        ([], Raised (ValueError ''also37 is not a boolean object''))) \<and>
   (isinstance_str repo_name \<and> isinstance_str pkg_name \<and> isinstance_str version \<and>
    isinstance_bool also37 \<and> \<not> isinstance_bool dryrun \<longrightarrow>
      release e repo_name pkg_name version also37 dryrun =
        ([], Raised (ValueError ''dryrun is not a boolean object''))) \<and>
   (isinstance_str repo_name \<and> isinstance_str pkg_name \<and> version = PyStr ver \<and>
    isinstance_bool also37 \<and> isinstance_bool dryrun \<and> \<not> re_match_version ver \<longrightarrow>
      release e repo_name pkg_name version also37 dryrun =
        ([], Raised (ValueError (''version='' @ ver @
                       '' does not have X.Y.Z semantic-versioning pattern'')))) \<and>
   (isinstance_str repo_name \<and> isinstance_str pkg_name \<and> version = PyStr ver \<and>
    isinstance_bool also37 \<and> isinstance_bool dryrun \<and> re_match_version ver \<and>
    \<not> isfile e (ANACONDA_TOKEN_FILE e) \<longrightarrow>
      release e repo_name pkg_name version also37 dryrun =
        ([IsFile (ANACONDA_TOKEN_FILE e)],
         Raised (ValueError (''Anaconda token file '' @ ANACONDA_TOKEN_FILE e @
                             '' does not exist'')))) \<and>
   (\<not> isinstance_str version \<longrightarrow>
      (\<forall>v. snd (release e repo_name pkg_name version also37 dryrun) \<noteq>
             Raised (ValueError (''version='' @ v @
                       '' does not have X.Y.Z semantic-versioning pattern''))))"
proof (intro conjI impI allI)
  assume "\<not> isinstance_str repo_name"
  then show "release e repo_name pkg_name version also37 dryrun =
        ([], Raised (ValueError ''repo_name is not a string object''))"
    by (simp add: release_raises_ValueError release_steps_repo_name)
next
  assume "isinstance_str repo_name \<and> \<not> isinstance_str pkg_name"
  then show "release e repo_name pkg_name version also37 dryrun =
        ([], Raised (ValueError ''pkg_name is not a string object''))"
    by (simp add: release_raises_ValueError release_steps_pkg_name)
next
  assume "isinstance_str repo_name \<and> isinstance_str pkg_name \<and> \<not> isinstance_str version"
  then show "release e repo_name pkg_name version also37 dryrun =
        ([], Raised (ValueError ''version is not a string object''))"
    by (simp add: release_raises_ValueError release_steps_version)
next
  assume "isinstance_str repo_name \<and> isinstance_str pkg_name \<and> isinstance_str version \<and>
    \<not> isinstance_bool also37"
  then show "release e repo_name pkg_name version also37 dryrun =
        ([], Raised (ValueError ''also37 is not a boolean object''))"
    by (simp add: release_raises_ValueError release_steps_also37)
next
  assume "isinstance_str repo_name \<and> isinstance_str pkg_name \<and> isinstance_str version \<and>
    isinstance_bool also37 \<and> \<not> isinstance_bool dryrun"
  then show "release e repo_name pkg_name version also37 dryrun =
        ([], Raised (ValueError ''dryrun is not a boolean object''))"
    by (simp add: release_raises_ValueError release_steps_dryrun)
next
  assume "isinstance_str repo_name \<and> isinstance_str pkg_name \<and> version = PyStr ver \<and>
    isinstance_bool also37 \<and> isinstance_bool dryrun \<and> \<not> re_match_version ver"
  then show "release e repo_name pkg_name version also37 dryrun =
        ([], Raised (ValueError (''version='' @ ver @
                       '' does not have X.Y.Z semantic-versioning pattern'')))"
    by (auto simp: isinstance_str_iff isinstance_bool_iff release_pattern)
next
  assume "isinstance_str repo_name \<and> isinstance_str pkg_name \<and> version = PyStr ver \<and>
    isinstance_bool also37 \<and> isinstance_bool dryrun \<and> re_match_version ver \<and>
    \<not> isfile e (ANACONDA_TOKEN_FILE e)"
  then show "release e repo_name pkg_name version also37 dryrun =
        ([IsFile (ANACONDA_TOKEN_FILE e)],
         Raised (ValueError (''Anaconda token file '' @ ANACONDA_TOKEN_FILE e @
                             '' does not exist'')))"
    by (auto simp: isinstance_str_iff isinstance_bool_iff release_token)
next
  fix v
  assume nv: "\<not> isinstance_str version"
  consider "\<not> isinstance_str repo_name"
    | "isinstance_str repo_name" "\<not> isinstance_str pkg_name"
    | "isinstance_str repo_name" "isinstance_str pkg_name"
    by blast
  then show "snd (release e repo_name pkg_name version also37 dryrun) \<noteq>
             Raised (ValueError (''version='' @ v @
                       '' does not have X.Y.Z semantic-versioning pattern''))"
  proof cases
    case 1
    then show ?thesis
      by (simp add: release_raises_ValueError release_steps_repo_name)
  next
    case 2
    then show ?thesis
      by (simp add: release_raises_ValueError release_steps_pkg_name)
  next
    case 3
    then show ?thesis using nv
      by (simp add: release_raises_ValueError release_steps_version)
  qed
qed

theorem check_order_witness:
  "release env_notoken (PyInt 3) PyNone (PyInt 1) PyNone (PyStr ''no'') =
     ([], Raised (ValueError ''repo_name is not a string object'')) \<and>
   release env_notoken (PyStr ''Tax-Calculator'') (PyStr ''taxcalc'') (PyInt 1) PyNone PyNone =
     ([], Raised (ValueError ''version is not a string object'')) \<and>
   release env_notoken (PyStr ''Tax-Calculator'') (PyStr ''taxcalc'') (PyStr ''1.2'')
       (PyBool True) (PyBool False) =
     ([], Raised (ValueError ''version=1.2 does not have X.Y.Z semantic-versioning pattern''))"
  using check_order [of "PyInt 3" env_notoken PyNone "PyInt 1" PyNone "PyStr ''no''"]
    check_order [of "PyStr ''Tax-Calculator''" env_notoken "PyStr ''taxcalc''" "PyInt 1" PyNone PyNone]
    check_order [of "PyStr ''Tax-Calculator''" env_notoken "PyStr ''taxcalc''" "PyStr ''1.2''"
                    "PyBool True" "PyBool False" "''1.2''"]
  by (simp add: re_match_version_def version_pattern_def re_dollar_def is_digit_def)

text \<open>
  C10. A call that leaves out the last two arguments is the call with \<^verbatim>\<open>also37\<close> true
  and \<^verbatim>\<open>dryrun\<close> false. With a version that matches the pattern and the token file
  present, such a call does not stop after the plan: it prints the starting line and
  queries the working directory. When no call fails it returns, and its external commands
  are the clone, the commands of the iteration for \<^verbatim>\<open>3.6\<close>, those of the iteration for
  \<^verbatim>\<open>3.7\<close> (which start with the build for \<^verbatim>\<open>3.7\<close>) and the purge.
\<close>

theorem release_defaults:
  "release_call e repo_name pkg_name version None None =
     release e repo_name pkg_name version (PyBool True) (PyBool False) \<and>
   (re_match_version ver \<and> isfile e (ANACONDA_TOKEN_FILE e) \<longrightarrow>
      (\<exists>more. fst (release_call e (PyStr repo) (PyStr pkg) (PyStr ver) None None) =
         IsFile (ANACONDA_TOKEN_FILE e) # map Print (plan_lines e repo pkg ver True) @
         [Print ('': Package-Builder is starting at '' @ asctime e 0), IsDir (WORKING_DIR e)] @
         more)) \<and>
   (re_match_version ver \<and> isfile e (ANACONDA_TOKEN_FILE e) \<and> (\<forall>tr a. succeeds e tr a) \<longrightarrow>
      snd (release_call e (PyStr repo) (PyStr pkg) (PyStr ver) None None) = Returned \<and>
      os_calls (fst (release_call e (PyStr repo) (PyStr pkg) (PyStr ver) None None)) =
        git_clone_cmd ver repo #
        os_calls (events_of (pyver_steps e pkg ver ''3.6'')) @
        os_calls (events_of (pyver_steps e pkg ver ''3.7'')) @ [purge_cmd] \<and>
      hd (os_calls (events_of (pyver_steps e pkg ver ''3.7''))) = conda_build_cmd ''3.7'')"
proof (intro conjI impI)
  show "release_call e repo_name pkg_name version None None =
     release e repo_name pkg_name version (PyBool True) (PyBool False)"
    by (simp add: release_call_def)
next
  assume ok: "re_match_version ver \<and> isfile e (ANACONDA_TOKEN_FILE e)"
  let ?tr0 = "IsFile (ANACONDA_TOKEN_FILE e) # map Print (plan_lines e repo pkg ver True) @
         [Print ('': Package-Builder is starting at '' @ asctime e 0), IsDir (WORKING_DIR e)]"
  from ok obtain rest where
    "release e (PyStr repo) (PyStr pkg) (PyStr ver) (PyBool True) (PyBool False) =
       run e ?tr0 rest"
    using release_starts_build by blast
  moreover obtain more where "fst (run e ?tr0 rest) = ?tr0 @ more"
    using run_keeps_trace by blast
  ultimately have "fst (release_call e (PyStr repo) (PyStr pkg) (PyStr ver) None None) =
      ?tr0 @ more"
    by (simp add: release_call_def)
  then show "\<exists>more. fst (release_call e (PyStr repo) (PyStr pkg) (PyStr ver) None None) =
         IsFile (ANACONDA_TOKEN_FILE e) # map Print (plan_lines e repo pkg ver True) @
         [Print ('': Package-Builder is starting at '' @ asctime e 0), IsDir (WORKING_DIR e)] @
         more"
    by (intro exI [of _ more]) simp
next
  assume ok: "re_match_version ver \<and> isfile e (ANACONDA_TOKEN_FILE e) \<and>
              (\<forall>tr a. succeeds e tr a)"
  then have r: "release_call e (PyStr repo) (PyStr pkg) (PyStr ver) None None =
     (events_of (before_loop_steps e repo pkg ver True) @
      events_of (loop_steps e pkg ver True) @ events_of (cleanup_steps e), Returned)"
    by (simp add: release_call_def release_all_succeed)
  show "snd (release_call e (PyStr repo) (PyStr pkg) (PyStr ver) None None) = Returned"
    by (simp add: r)
  have "os_calls (events_of (cleanup_steps e)) = [purge_cmd]"
    by (simp add: events_of_cleanup)
  moreover have "python_versions True = [''3.6'', ''3.7'']"
    by (simp add: python_versions_def BASE_PYTHON_VERSIONS_def)
  ultimately show "os_calls (fst (release_call e (PyStr repo) (PyStr pkg) (PyStr ver) None None)) =
        git_clone_cmd ver repo #
        os_calls (events_of (pyver_steps e pkg ver ''3.6'')) @
        os_calls (events_of (pyver_steps e pkg ver ''3.7'')) @ [purge_cmd]"
    by (simp add: r os_calls_append os_calls_before_loop os_calls_loop_steps)
  have "''3.7'' \<in> set (python_versions True)"
    by (simp add: python_versions_def)
  then show "hd (os_calls (events_of (pyver_steps e pkg ver ''3.7''))) = conda_build_cmd ''3.7''"
    by (simp add: pyver_steps_events(2))
qed

theorem release_defaults_witness:
  "re_match_version ''0.22.2'' \<and> isfile env_ok (ANACONDA_TOKEN_FILE env_ok) \<and>
   (\<forall>tr a. succeeds env_ok tr a) \<and>
   snd (release_call env_ok (PyStr ''Tax-Calculator'') (PyStr ''taxcalc'') (PyStr ''0.22.2'')
          None None) = Returned \<and>
   hd (os_calls (fst (release_call env_ok (PyStr ''Tax-Calculator'') (PyStr ''taxcalc'')
          (PyStr ''0.22.2'') None None))) =
     ''git clone --branch 0.22.2 --depth 1 https://github.com/PSLmodels/Tax-Calculator/''"
proof -
  have m: "re_match_version ''0.22.2''"
    by (simp add: re_match_version_def version_pattern_def re_dollar_def is_digit_def)
  have f: "isfile env_ok (ANACONDA_TOKEN_FILE env_ok)"
    by (simp add: env_ok_def)
  have s: "\<forall>tr a. succeeds env_ok tr a"
    by (simp add: env_ok_def)
  have hyp: "re_match_version ''0.22.2'' \<and> isfile env_ok (ANACONDA_TOKEN_FILE env_ok) \<and>
        (\<forall>tr a. succeeds env_ok tr a)"
    using m f s by (intro conjI)
  from release_defaults [of env_ok "PyStr ''Tax-Calculator''" "PyStr ''taxcalc''"
        "PyStr ''0.22.2''" "''0.22.2''" "''Tax-Calculator''" "''taxcalc''"]
  have imp: "re_match_version ''0.22.2'' \<and> isfile env_ok (ANACONDA_TOKEN_FILE env_ok) \<and>
        (\<forall>tr a. succeeds env_ok tr a) \<longrightarrow>
      snd (release_call env_ok (PyStr ''Tax-Calculator'') (PyStr ''taxcalc'')
          (PyStr ''0.22.2'') None None) = Returned \<and>
      os_calls (fst (release_call env_ok (PyStr ''Tax-Calculator'') (PyStr ''taxcalc'')
          (PyStr ''0.22.2'') None None)) =
        git_clone_cmd ''0.22.2'' ''Tax-Calculator'' #
        os_calls (events_of (pyver_steps env_ok ''taxcalc'' ''0.22.2'' ''3.6'')) @
        os_calls (events_of (pyver_steps env_ok ''taxcalc'' ''0.22.2'' ''3.7'')) @ [purge_cmd] \<and>
      hd (os_calls (events_of (pyver_steps env_ok ''taxcalc'' ''0.22.2'' ''3.7''))) =
        conda_build_cmd ''3.7''"
    by (elim conjE)
  from imp hyp
  have "snd (release_call env_ok (PyStr ''Tax-Calculator'') (PyStr ''taxcalc'')
          (PyStr ''0.22.2'') None None) = Returned \<and>
      os_calls (fst (release_call env_ok (PyStr ''Tax-Calculator'') (PyStr ''taxcalc'')
          (PyStr ''0.22.2'') None None)) =
        git_clone_cmd ''0.22.2'' ''Tax-Calculator'' #
        os_calls (events_of (pyver_steps env_ok ''taxcalc'' ''0.22.2'' ''3.6'')) @
        os_calls (events_of (pyver_steps env_ok ''taxcalc'' ''0.22.2'' ''3.7'')) @ [purge_cmd] \<and>
      hd (os_calls (events_of (pyver_steps env_ok ''taxcalc'' ''0.22.2'' ''3.7''))) =
        conda_build_cmd ''3.7''"
    by (rule mp)
  then show ?thesis
    using m f s by (simp add: git_clone_cmd_def GITHUB_URL_def)
qed

end
